theory Spec2Isabelle
  imports Complex_Main "HOL-Library.Sublist"
begin

section \<open>Double-precision arithmetic as Python exposes it\<close>

text \<open>
  The program computes with Python floats, which are IEEE 754 binary64 numbers. A float
  is modelled as a finite real, an infinity or a NaN. The two zeros are one value: the
  program never looks at the sign of a zero (\<open>0.0 == -0.0\<close>, and a division by either
  raises). Every attribute and global that holds a number holds a float; where the
  source writes an integer default such as \<open>T=25\<close> the model has the float of the same
  value, which gives the same results as long as the integers stay below \<open>2^53\<close>.
\<close>

datatype double = Fin real | PInf | NInf | NaN

datatype error = ZeroDivisionError | OverflowError | ValueError

subsection \<open>Rounding to nearest, ties to even\<close>

text \<open>\<open>rhe y\<close> is the integer nearest to \<open>y\<close>, the even one when there are two.\<close>

definition rhe :: "real \<Rightarrow> int" where
  "rhe y =
     (let f = \<lfloor>y\<rfloor>
      in if y - of_int f < 1 / 2 then f
         else if 1 / 2 < y - of_int f then f + 1
         else if even f then f else f + 1)"

text \<open>
  \<open>binade x\<close> is the exponent \<open>k\<close> with \<open>2^k \<le> |x| < 2^(k+1)\<close>, not below \<open>-1022\<close>
  (the subnormal numbers share the exponent of the smallest normal ones) and not above
  \<open>1024\<close>. It is found by a search from the top, so that it can be evaluated.
\<close>

fun binade_from :: "nat \<Rightarrow> real \<Rightarrow> int" where
  "binade_from 0 x = - 1022"
| "binade_from (Suc n) x =
     (if 2 powi (int n - 1021) \<le> \<bar>x\<bar> then int n - 1021 else binade_from n x)"

definition binade :: "real \<Rightarrow> int" where
  "binade x = binade_from 2046 x"

text \<open>
  \<open>nearest x\<close> is the multiple of \<open>2^(binade x - 52)\<close> nearest to the real \<open>x\<close>, and
  \<open>rnd x\<close> is the double nearest to \<open>x\<close>: \<open>nearest x\<close>, or an infinity when that is
  \<open>2^1024\<close> or beyond.
\<close>

definition nearest :: "real \<Rightarrow> real" where
  "nearest x = (let q = 2 powi (binade x - 52) in of_int (rhe (x / q)) * q)"

definition rnd :: "real \<Rightarrow> double" where
  "rnd x =
     (let r = nearest x
      in if 2 ^ 1024 \<le> r then PInf
         else if r \<le> - (2 ^ 1024) then NInf
         else Fin r)"

subsection \<open>The operators on floats\<close>

fun fneg :: "double \<Rightarrow> double" where
  "fneg (Fin x) = Fin (- x)"
| "fneg PInf = NInf"
| "fneg NInf = PInf"
| "fneg NaN = NaN"

fun fadd :: "double \<Rightarrow> double \<Rightarrow> double" where
  "fadd (Fin x) (Fin y) = rnd (x + y)"
| "fadd (Fin x) PInf = PInf"
| "fadd (Fin x) NInf = NInf"
| "fadd PInf (Fin y) = PInf"
| "fadd NInf (Fin y) = NInf"
| "fadd PInf PInf = PInf"
| "fadd NInf NInf = NInf"
| "fadd PInf NInf = NaN"
| "fadd NInf PInf = NaN"
| "fadd NaN b = NaN"
| "fadd a NaN = NaN"

definition fsub :: "double \<Rightarrow> double \<Rightarrow> double" where
  "fsub a b = fadd a (fneg b)"

fun fmul :: "double \<Rightarrow> double \<Rightarrow> double" where
  "fmul (Fin x) (Fin y) = rnd (x * y)"
| "fmul (Fin x) PInf = (if x = 0 then NaN else if 0 < x then PInf else NInf)"
| "fmul (Fin x) NInf = (if x = 0 then NaN else if 0 < x then NInf else PInf)"
| "fmul PInf (Fin y) = (if y = 0 then NaN else if 0 < y then PInf else NInf)"
| "fmul NInf (Fin y) = (if y = 0 then NaN else if 0 < y then NInf else PInf)"
| "fmul PInf PInf = PInf"
| "fmul NInf NInf = PInf"
| "fmul PInf NInf = NInf"
| "fmul NInf PInf = NInf"
| "fmul NaN b = NaN"
| "fmul a NaN = NaN"

text \<open>
  Python's \<open>/\<close> on floats tests the divisor against zero first and raises; otherwise it
  is the IEEE division.
\<close>

fun fdiv :: "double \<Rightarrow> double \<Rightarrow> error + double" where
  "fdiv a (Fin y) =
     (if y = 0 then Inl ZeroDivisionError
      else case a of
             Fin x \<Rightarrow> Inr (rnd (x / y))
           | PInf \<Rightarrow> Inr (if 0 < y then PInf else NInf)
           | NInf \<Rightarrow> Inr (if 0 < y then NInf else PInf)
           | NaN \<Rightarrow> Inr NaN)"
| "fdiv (Fin x) PInf = Inr (Fin 0)"
| "fdiv (Fin x) NInf = Inr (Fin 0)"
| "fdiv NaN PInf = Inr NaN"
| "fdiv NaN NInf = Inr NaN"
| "fdiv PInf PInf = Inr NaN"
| "fdiv PInf NInf = Inr NaN"
| "fdiv NInf PInf = Inr NaN"
| "fdiv NInf NInf = Inr NaN"
| "fdiv a NaN = Inr NaN"

text \<open>The comparisons \<open>a > b\<close> and \<open>a <= b\<close>; both are false when a NaN is compared.\<close>

fun fgt :: "double \<Rightarrow> double \<Rightarrow> bool" where
  "fgt (Fin x) (Fin y) = (y < x)"
| "fgt PInf (Fin y) = True"
| "fgt PInf NInf = True"
| "fgt (Fin x) NInf = True"
| "fgt a b = False"

fun fle :: "double \<Rightarrow> double \<Rightarrow> bool" where
  "fle (Fin x) (Fin y) = (x \<le> y)"
| "fle NInf (Fin y) = True"
| "fle NInf NInf = True"
| "fle NInf PInf = True"
| "fle (Fin x) PInf = True"
| "fle PInf PInf = True"
| "fle a b = False"

text \<open>Sequencing of computations that may raise.\<close>

definition then_do :: "error + 'a \<Rightarrow> ('a \<Rightarrow> error + 'b) \<Rightarrow> error + 'b" where
  "then_do r f = (case r of Inl e \<Rightarrow> Inl e | Inr v \<Rightarrow> f v)"

subsection \<open>The C library\<close>

text \<open>
  \<open>**\<close>, \<open>math.exp\<close> and \<open>math.sin\<close> call \<open>pow\<close>, \<open>exp\<close> and \<open>sin\<close> of the
  platform's C library, whose results are accurate but not specified bit for bit. They
  are a parameter of the model: \<open>c_pow x n\<close> is \<open>pow(x, n)\<close> for a finite \<open>x > 0\<close>
  other than 1, \<open>c_exp x\<close> and \<open>c_sin x\<close> are \<open>exp(x)\<close> and \<open>sin(x)\<close> for a finite
  \<open>x\<close>. What Python does around these calls is modelled below.
\<close>

record libm =
  c_pow :: "real \<Rightarrow> nat \<Rightarrow> double"
  c_exp :: "real \<Rightarrow> double"
  c_sin :: "real \<Rightarrow> double"

text \<open>
  \<open>x ** n\<close> for a float \<open>x\<close> and an even integer literal \<open>n > 0\<close> (\<open>float_pow\<close>):
  NaN and the infinities are answered at once, so are zero, 1 and -1; otherwise the
  result of \<open>pow(|x|, n)\<close> is returned, and an infinite one raises \<open>OverflowError\<close>.
\<close>

fun py_pow :: "libm \<Rightarrow> double \<Rightarrow> nat \<Rightarrow> error + double" where
  "py_pow lm NaN n = Inr NaN"
| "py_pow lm PInf n = Inr PInf"
| "py_pow lm NInf n = Inr PInf"
| "py_pow lm (Fin x) n =
     (if x = 0 then Inr (Fin 0)
      else if \<bar>x\<bar> = 1 then Inr (Fin 1)
      else case c_pow lm \<bar>x\<bar> n of
             PInf \<Rightarrow> Inl OverflowError
           | NInf \<Rightarrow> Inl OverflowError
           | r \<Rightarrow> Inr r)"

text \<open>
  \<open>math.exp\<close> and \<open>math.sin\<close> (\<open>math_1\<close> in \<open>mathmodule.c\<close>): a NaN result for an
  argument that is not a NaN raises \<open>ValueError\<close>; an infinite result for a finite
  argument raises \<open>OverflowError\<close> from \<open>exp\<close> and \<open>ValueError\<close> from \<open>sin\<close>.
\<close>

fun math_exp :: "libm \<Rightarrow> double \<Rightarrow> error + double" where
  "math_exp lm NaN = Inr NaN"
| "math_exp lm PInf = Inr PInf"
| "math_exp lm NInf = Inr (Fin 0)"
| "math_exp lm (Fin x) =
     (case c_exp lm x of
        NaN \<Rightarrow> Inl ValueError
      | PInf \<Rightarrow> Inl OverflowError
      | NInf \<Rightarrow> Inl OverflowError
      | Fin r \<Rightarrow> Inr (Fin r))"

fun math_sin :: "libm \<Rightarrow> double \<Rightarrow> error + double" where
  "math_sin lm NaN = Inr NaN"
| "math_sin lm PInf = Inl ValueError"
| "math_sin lm NInf = Inl ValueError"
| "math_sin lm (Fin x) =
     (case c_sin lm x of
        NaN \<Rightarrow> Inl ValueError
      | PInf \<Rightarrow> Inl ValueError
      | NInf \<Rightarrow> Inl ValueError
      | Fin r \<Rightarrow> Inr (Fin r))"

text \<open>\<open>math.pi\<close>, the double nearest to \<open>pi\<close>.\<close>

definition math_pi :: double where
  "math_pi = Fin (884279719003555 / 2 ^ 48)"

text \<open>
  The conversion of an integer to a float when it meets a float in an operation: the
  nearest double, and \<open>OverflowError\<close> when that is out of range.
\<close>

definition float_of_int :: "int \<Rightarrow> error + double" where
  "float_of_int i =
     (case rnd (of_int i) of
        PInf \<Rightarrow> Inl OverflowError
      | NInf \<Rightarrow> Inl OverflowError
      | r \<Rightarrow> Inr r)"

section \<open>Solar water heater simulation: the model\<close>

subsection \<open>Module globals\<close>

text \<open>
  The methods read \<open>cycle\<close>, \<open>dt\<close>, \<open>T_amb\<close>, \<open>solar_rad\<close> and \<open>sigma\<close>
  from the module's globals; the loop reads \<open>steps\<close>. The global \<open>time\<close> is
  assigned by the loop before each call and is passed as an argument here.
\<close>

record globals =
  cycle :: bool
  dt :: double
  steps :: int
  T_amb :: double
  solar_rad :: double
  sigma :: double

subsection \<open>Helper functions\<close>

definition Kelvin :: "double \<Rightarrow> double" where
  "Kelvin t = fadd t (Fin 273)"

definition get_solar_rad :: "libm \<Rightarrow> double \<Rightarrow> double \<Rightarrow> bool \<Rightarrow> error + double" where
  "get_solar_rad lm rad tm cyc =
     (if cyc then
        then_do (fdiv (fmul (fmul (Fin 2) math_pi) tm) (Fin 86400)) (\<lambda>x.
        then_do (math_sin lm x) (\<lambda>a.
        Inr (if fgt a (Fin 0) then fmul rad a else Fin 0)))
      else Inr rad)"

subsection \<open>SolarPanel\<close>

record SolarPanel =
  T :: double
  effi :: double
  pipe_len :: double
  pipe_dia :: double
  pipe_area :: double
  panel_area :: double
  panel_thickness :: double
  C :: double
  emmi :: double

text \<open>
  \<open>SolarPanel.__init__\<close>; the arguments are in the order of the signature. The square
  of the diameter can raise.
\<close>

definition SolarPanel_init ::
  "libm \<Rightarrow> double \<Rightarrow> double \<Rightarrow> double \<Rightarrow> double \<Rightarrow> double \<Rightarrow> double \<Rightarrow> double \<Rightarrow> double
     \<Rightarrow> error + SolarPanel" where
  "SolarPanel_init lm T0 effi0 emmi0 pipe_len0 pipe_dia0 panel_area0 panel_thickness0 C0 =
     then_do (py_pow lm pipe_dia0 2) (\<lambda>d2.
     then_do (fdiv (fmul math_pi d2) (Fin 4)) (\<lambda>a.
     Inr \<lparr>T = T0, effi = effi0, pipe_len = pipe_len0, pipe_dia = pipe_dia0, pipe_area = a,
          panel_area = panel_area0, panel_thickness = panel_thickness0, C = C0,
          emmi = emmi0\<rparr>))"

text \<open>The constructor's defaults, \<open>SolarPanel()\<close>.\<close>

definition SolarPanel_default :: "libm \<Rightarrow> error + SolarPanel" where
  "SolarPanel_default lm =
     SolarPanel_init lm (Fin 25) (rnd 0.5) (rnd 0.4) (Fin 5) (rnd 0.025) (Fin 1) (rnd 0.06)
       (Fin 500)"

text \<open>
  \<open>SolarPanel.UpdateTemp\<close>. \<open>UpdateTemp_value\<close> is the right-hand side of the
  assignment to \<open>self.T\<close>, evaluated in the order of the source: the flux, the two
  fourth powers, the mass, the division. The result of the method is the returned
  value or the exception, together with the object after the call; an exception
  leaves the object as it was, since the assignment is the last step.
\<close>

definition UpdateTemp_value :: "libm \<Rightarrow> globals \<Rightarrow> double \<Rightarrow> SolarPanel \<Rightarrow> error + double" where
  "UpdateTemp_value lm g tm p =
     then_do (get_solar_rad lm (solar_rad g) tm (cycle g)) (\<lambda>flux.
     then_do (py_pow lm (Kelvin (T p)) 4) (\<lambda>k1.
     then_do (py_pow lm (Kelvin (T_amb g)) 4) (\<lambda>k2.
       let radiation_in = fmul (fmul flux (effi p)) (panel_area p);
           radiation_loss =
             fmul (fmul (fmul (fmul (sigma g) (panel_area p)) (emmi p)) (fsub k1 k2)) (dt g);
           convection_loss = fmul (rnd 0.2) radiation_loss;
           panel_available_heat = fsub radiation_in (fadd radiation_loss convection_loss);
           panel_mass = fmul (fmul (panel_thickness p) (panel_area p)) (Fin 7800)
       in then_do (fdiv panel_available_heat (fmul (C p) panel_mass)) (\<lambda>q.
          Inr (fadd (T p) q)))))"

definition SolarPanel_UpdateTemp ::
  "libm \<Rightarrow> globals \<Rightarrow> double \<Rightarrow> SolarPanel \<Rightarrow> (error + double) \<times> SolarPanel" where
  "SolarPanel_UpdateTemp lm g tm p =
     (case UpdateTemp_value lm g tm p of
        Inl e \<Rightarrow> (Inl e, p)
      | Inr T_new \<Rightarrow> (Inr T_new, p\<lparr>T := T_new\<rparr>))"

subsection \<open>Fluid\<close>

text \<open>
  The attributes \<open>C\<close> and \<open>pipe_area\<close> of \<open>Fluid\<close> carry the prefix \<open>fluid_\<close>,
  since \<open>SolarPanel\<close> has attributes of the same names.
\<close>

record Fluid =
  rho :: double
  velocity :: double
  fluid_C :: double
  ht_coeff :: double
  T_panel_out :: double
  T_tank_out :: double
  alpha :: double
  len :: double
  fluid_pipe_area :: double
  tank_volume :: double

text \<open>
  \<open>Fluid.__init__\<close>: the division that computes \<open>alpha\<close> raises when the double
  product \<open>C * rho * velocity * pipe_dia\<close>, multiplied from the left, is zero.
\<close>

definition Fluid_init ::
  "SolarPanel \<Rightarrow> double \<Rightarrow> double \<Rightarrow> double \<Rightarrow> double \<Rightarrow> double \<Rightarrow> double \<Rightarrow> double
     \<Rightarrow> error + Fluid" where
  "Fluid_init solarpanel tank_volume0 T_panel_out0 T_tank_out0 C0 rho0 velocity0 ht_coeff0 =
     then_do (fdiv (fmul (Fin 4) ht_coeff0)
                (fmul (fmul (fmul C0 rho0) velocity0) (pipe_dia solarpanel))) (\<lambda>al.
     Inr \<lparr>rho = rho0, velocity = velocity0, fluid_C = C0, ht_coeff = ht_coeff0,
          T_panel_out = T_panel_out0, T_tank_out = T_tank_out0, alpha = al,
          len = pipe_len solarpanel, fluid_pipe_area = pipe_area solarpanel,
          tank_volume = tank_volume0\<rparr>)"


text \<open>
  \<open>Fluid.UpdateTemp\<close>. \<open>math.exp\<close> is evaluated before \<open>self.T_panel_out\<close> is
  assigned, so its exception leaves the object as it was; the division of the mixing
  step comes after that assignment, so the object that its exception leaves behind
  has the new panel-outlet temperature and the old tank-outlet temperature.
\<close>

definition Fluid_UpdateTemp ::
  "libm \<Rightarrow> globals \<Rightarrow> Fluid \<Rightarrow> double \<Rightarrow> (error + double \<times> double) \<times> Fluid" where
  "Fluid_UpdateTemp lm g w pipe_temp_updated =
     (case math_exp lm (fmul (fneg (alpha w)) (len w)) of
        Inl e \<Rightarrow> (Inl e, w)
      | Inr ex \<Rightarrow>
          (let w1 = w\<lparr>T_panel_out :=
                       fadd pipe_temp_updated (fmul (fsub (T_tank_out w) pipe_temp_updated) ex)\<rparr>;
               m = fmul (fmul (fmul (rho w1) (fluid_pipe_area w1)) (velocity w1)) (dt g);
               M = fmul (tank_volume w1) (rho w1)
           in case fdiv (fadd (fmul m (T_panel_out w1)) (fmul M (T_tank_out w1))) (fadd m M) of
                Inl e \<Rightarrow> (Inl e, w1)
              | Inr t \<Rightarrow>
                  (let w2 = w1\<lparr>T_tank_out := t\<rparr>
                   in (Inr (T_panel_out w2, T_tank_out w2), w2))))"

subsection \<open>Main loop\<close>

record sim =
  Panel :: SolarPanel
  Water :: Fluid
  tank_outlet_temps :: "double list"
  panel_outlet_temps :: "double list"
  pipe_temps :: "double list"

text \<open>
  The body of \<open>for i in range(steps)\<close>: \<open>time = dt*i\<close> converts \<open>i\<close> to a float. No
  exception is caught, so the first one ends the run.
\<close>

definition loop_body :: "libm \<Rightarrow> globals \<Rightarrow> sim \<Rightarrow> nat \<Rightarrow> error + sim" where
  "loop_body lm g s i =
     then_do (float_of_int (int i)) (\<lambda>fi.
       let tm = fmul (dt g) fi
       in case SolarPanel_UpdateTemp lm g tm (Panel s) of
            (Inl e, _) \<Rightarrow> Inl e
          | (Inr pipe_temp_updated, p') \<Rightarrow>
              (case Fluid_UpdateTemp lm g (Water s) pipe_temp_updated of
                 (Inl e, _) \<Rightarrow> Inl e
               | (Inr (panel_out_temp_updated, tank_out_temp_updated), w') \<Rightarrow>
                   Inr \<lparr>Panel = p', Water = w',
                        tank_outlet_temps = tank_outlet_temps s @ [tank_out_temp_updated],
                        panel_outlet_temps = panel_outlet_temps s @ [panel_out_temp_updated],
                        pipe_temps = pipe_temps s @ [pipe_temp_updated]\<rparr>))"

fun run_range :: "libm \<Rightarrow> globals \<Rightarrow> nat list \<Rightarrow> sim \<Rightarrow> error + sim" where
  "run_range lm g [] s = Inr s"
| "run_range lm g (i # ns) s =
     (case loop_body lm g s i of Inl e \<Rightarrow> Inl e | Inr s' \<Rightarrow> run_range lm g ns s')"

text \<open>
  The three lists start empty and the loop runs over \<open>range(steps)\<close>, which is empty
  when \<open>steps\<close> is not positive.
\<close>

definition main_loop :: "libm \<Rightarrow> globals \<Rightarrow> SolarPanel \<Rightarrow> Fluid \<Rightarrow> error + sim" where
  "main_loop lm g p w =
     run_range lm g [0..<nat (steps g)]
       \<lparr>Panel = p, Water = w, tank_outlet_temps = [], panel_outlet_temps = [], pipe_temps = []\<rparr>"


subsection \<open>Reference values\<close>

text \<open>
  A C library that rounds correctly. It is used where a statement is about one run of
  the program and needs one particular library.
\<close>

definition libm_cr :: libm where
  "libm_cr = \<lparr>c_pow = (\<lambda>x n. rnd (x ^ n)), c_exp = (\<lambda>x. rnd (exp x)), c_sin = (\<lambda>x. rnd (sin x))\<rparr>"

text \<open>
  The same library with the value of \<open>exp\<close> written out that the C library of the
  reference platform returns at \<open>-alpha * len\<close> of the default fluid, the one argument
  at which the runs below call it.
\<close>

definition libm_ref :: libm where
  "libm_ref = libm_cr\<lparr>c_exp := (\<lambda>x. Fin (2856790568623585 / 9007199254740992))\<rparr>"

text \<open>The values that the main block assigns to the globals.\<close>

definition globals_default :: globals where
  "globals_default =
     \<lparr>cycle = False, dt = Fin 1, steps = 500000, T_amb = Fin 25, solar_rad = Fin 1000,
      sigma = rnd (5.67 / 10 ^ 8)\<rparr>"

text \<open>
  The objects that \<open>SolarPanel()\<close> and \<open>Fluid(solarpanel=Panel)\<close> construct, written
  out; \<open>SolarPanel_default_value\<close> and \<open>Fluid_default_value\<close> below prove that they
  are.
\<close>

definition Panel_default :: SolarPanel where
  "Panel_default =
     \<lparr>T = Fin (25), effi = Fin (1 / 2), pipe_len = Fin (5), pipe_dia = Fin (3602879701896397 / 144115188075855872), pipe_area = Fin (2263756080649101 / 4611686018427387904), panel_area = Fin (1), panel_thickness = Fin (1080863910568919 / 18014398509481984), C = Fin (500), emmi = Fin (3602879701896397 / 9007199254740992)\<rparr>"

definition Water_default :: Fluid where
  "Water_default =
     \<lparr>rho = Fin (1000), velocity = Fin (3602879701896397 / 72057594037927936), fluid_C = Fin (4180), ht_coeff = Fin (300), T_panel_out = Fin (25), T_tank_out = Fin (25), alpha = Fin (8274556253159189 / 36028797018963968), len = Fin (5), fluid_pipe_area = Fin (2263756080649101 / 4611686018427387904), tank_volume = Fin (2)\<rparr>"

section \<open>Properties of the arithmetic\<close>

lemma binade_from_spec:
  "- 1022 \<le> binade_from n x \<and> binade_from n x \<le> int n - 1022 \<and>
   (- 1022 < binade_from n x \<longrightarrow> 2 powi (binade_from n x) \<le> \<bar>x\<bar>) \<and>
   (binade_from n x < int n - 1022 \<longrightarrow> \<bar>x\<bar> < 2 powi (binade_from n x + 1))"
proof (induction n)
  case 0
  show ?case by simp
next
  case (Suc n)
  show ?case
  proof (cases "2 powi (int n - 1021) \<le> \<bar>x\<bar>")
    case True
    then show ?thesis by simp
  next
    case False
    then have lt: "\<bar>x\<bar> < 2 powi (int n - 1021)" by simp
    have eq: "binade_from (Suc n) x = binade_from n x" using False by simp
    show ?thesis
    proof (cases "binade_from n x < int n - 1022")
      case True
      with Suc eq show ?thesis by simp
    next
      case False
      with Suc have b: "binade_from n x = int n - 1022" by simp
      have "int n - 1021 = binade_from n x + 1" using b by simp
      with lt have "\<bar>x\<bar> < 2 powi (binade_from n x + 1)" by simp
      with Suc b show ?thesis by (simp add: eq)
    qed
  qed
qed

lemma binade_range: "- 1022 \<le> binade x" "binade x \<le> 1024"
  using binade_from_spec [of 2046 x] by (simp_all add: binade_def)

lemma binade_lower: "- 1022 < binade x \<Longrightarrow> 2 powi (binade x) \<le> \<bar>x\<bar>"
  using binade_from_spec [of 2046 x] by (simp add: binade_def)

lemma binade_upper: "binade x < 1024 \<Longrightarrow> \<bar>x\<bar> < 2 powi (binade x + 1)"
  using binade_from_spec [of 2046 x] by (simp add: binade_def)

lemma binade_eqI:
  assumes "- 1022 \<le> k" "k \<le> 1023" "k = - 1022 \<or> 2 powi k \<le> \<bar>x\<bar>" "\<bar>x\<bar> < 2 powi (k + 1)"
  shows "binade x = k"
proof (rule antisym)
  show "binade x \<le> k"
  proof (rule ccontr)
    assume "\<not> binade x \<le> k"
    then have gt: "k + 1 \<le> binade x" by simp
    then have "- 1022 < binade x" using assms(1) by simp
    from binade_lower [OF this] have "2 powi (binade x) \<le> \<bar>x\<bar>" .
    moreover have "(2::real) powi (k + 1) \<le> 2 powi (binade x)"
      using gt by (intro power_int_increasing) simp_all
    ultimately show False using assms(4) by simp
  qed
  show "k \<le> binade x"
  proof (rule ccontr)
    assume "\<not> k \<le> binade x"
    then have lt: "binade x + 1 \<le> k" by simp
    then have "binade x < 1024" using assms(2) by simp
    from binade_upper [OF this] have up: "\<bar>x\<bar> < 2 powi (binade x + 1)" .
    have "- 1022 < k" using lt binade_range(1) [of x] by simp
    then have "2 powi k \<le> \<bar>x\<bar>" using assms(3) by simp
    moreover have "(2::real) powi (binade x + 1) \<le> 2 powi k"
      using lt by (intro power_int_increasing) simp_all
    ultimately show False using up by simp
  qed
qed

lemma rhe_eqI:
  assumes "\<bar>y - of_int n\<bar> < 1 / 2"
  shows "rhe y = n"
proof (cases "of_int n \<le> y")
  case True
  then have "\<lfloor>y\<rfloor> = n" using assms by (intro floor_unique) auto
  then show ?thesis using assms True by (simp add: rhe_def Let_def)
next
  case False
  then have f: "\<lfloor>y\<rfloor> = n - 1" using assms by (intro floor_unique) auto
  have "1 / 2 < y - of_int (n - 1)" using assms False by auto
  then show ?thesis using f by (simp add: rhe_def Let_def)
qed

lemma rhe_tie_down:
  assumes "y - of_int n = 1 / 2" "even n"
  shows "rhe y = n"
proof -
  have "\<lfloor>y\<rfloor> = n" using assms(1) by (intro floor_unique) auto
  then show ?thesis using assms by (simp add: rhe_def Let_def)
qed

lemma rhe_tie_up:
  assumes "of_int n - y = 1 / 2" "even n"
  shows "rhe y = n"
proof -
  have f: "\<lfloor>y\<rfloor> = n - 1" using assms(1) by (intro floor_unique) auto
  have "y - of_int (n - 1) = 1 / 2" using assms(1) by simp
  moreover have "odd (n - 1)" using assms(2) by simp
  ultimately show ?thesis using f by (simp add: rhe_def Let_def)
qed

lemma rnd_eqI:
  assumes "binade x = k" "rhe (x / 2 powi (k - 52)) = n"
      and "\<bar>of_int n * 2 powi (k - 52)\<bar> < (2::real) ^ 1024"
  shows "rnd x = Fin (of_int n * 2 powi (k - 52))"
  using assms by (auto simp: rnd_def nearest_def Let_def)


lemma binade_0: "binade 0 = - 1022"
  by (rule binade_eqI) simp_all

lemma rhe_of_int: "rhe (of_int n) = n"
  by (rule rhe_eqI) simp

lemma rnd_0: "rnd 0 = Fin 0"
  using rhe_of_int [of 0] by (simp add: rnd_def nearest_def Let_def)



lemma fmul_zero: "fmul (Fin 0) (Fin y) = Fin 0" "fmul (Fin x) (Fin 0) = Fin 0"
  by (simp_all add: rnd_0)

lemma fdiv_zero: "fdiv a (Fin 0) = Inl ZeroDivisionError"
  by simp




lemma rhe_ge_floor: "\<lfloor>y\<rfloor> \<le> rhe y"
  by (simp add: rhe_def Let_def)

lemma rhe_lower: "of_int n \<le> y \<Longrightarrow> n \<le> rhe y"
  using rhe_ge_floor [of y] by (simp add: le_floor_iff [symmetric])

lemma rhe_scaled_lower:
  fixes q :: real
  assumes "0 < q" "of_int n * q \<le> x"
  shows "of_int n * q \<le> of_int (rhe (x / q)) * q"
proof -
  have "of_int n \<le> x / q" using assms by (simp add: pos_le_divide_eq)
  then have "n \<le> rhe (x / q)" by (rule rhe_lower)
  then have "(of_int n :: real) \<le> of_int (rhe (x / q))" by simp
  then show ?thesis using assms(1) by (simp add: mult_right_mono)
qed

lemma rnd_overflow:
  assumes "2 ^ 1024 \<le> x"
  shows "rnd x = PInf"
proof -
  have x: "2 powi 1024 \<le> \<bar>x\<bar>" using assms by simp
  have "\<not> binade x < 1024"
  proof
    assume lt: "binade x < 1024"
    from binade_upper [OF this] have "\<bar>x\<bar> < 2 powi (binade x + 1)" .
    moreover have "(2::real) powi (binade x + 1) \<le> 2 powi 1024"
      using lt by (intro power_int_increasing) simp_all
    ultimately show False using x by simp
  qed
  then have b: "binade x = 1024" using binade_range(2) [of x] by simp
  have q: "(0::real) < 2 powi 972" by simp
  have le: "of_int (2 ^ 52) * (2::real) powi 972 \<le> x" using assms by simp
  have "(2::real) ^ 1024 = of_int (2 ^ 52) * 2 powi 972" by simp
  also have "\<dots> \<le> of_int (rhe (x / 2 powi 972)) * 2 powi 972"
    by (rule rhe_scaled_lower [OF q le])
  finally have "(2::real) ^ 1024 \<le> of_int (rhe (x / 2 powi 972)) * 2 powi 972" .
  then show ?thesis by (simp add: rnd_def nearest_def Let_def b)
qed



subsection \<open>Rounding is monotone, idempotent and accurate\<close>

lemma rhe_le_floor1: "rhe y \<le> \<lfloor>y\<rfloor> + 1"
  by (simp add: rhe_def Let_def)

lemma rhe_mono:
  assumes "y \<le> z"
  shows "rhe y \<le> rhe z"
proof (cases "\<lfloor>y\<rfloor> = \<lfloor>z\<rfloor>")
  case True
  then show ?thesis using assms by (auto simp: rhe_def Let_def)
next
  case False
  then have "\<lfloor>y\<rfloor> + 1 \<le> \<lfloor>z\<rfloor>" using floor_mono [OF assms] by simp
  then show ?thesis using rhe_le_floor1 [of y] rhe_ge_floor [of z] by simp
qed

lemma rhe_upper: "y \<le> of_int n \<Longrightarrow> rhe y \<le> n"
  using rhe_mono [of y "of_int n"] by (simp add: rhe_of_int)

lemma rhe_error: "\<bar>of_int (rhe y) - y\<bar> \<le> 1 / 2"
proof -
  have "of_int \<lfloor>y\<rfloor> \<le> y" "y < of_int \<lfloor>y\<rfloor> + 1" by linarith+
  then show ?thesis by (auto simp: rhe_def Let_def)
qed

lemma rhe_minus: "rhe (- y) = - rhe y"
proof (cases "y = of_int \<lfloor>y\<rfloor>")
  case True
  then obtain n where "y = of_int n" ..
  then have "rhe y = n" "rhe (- y) = - n"
    using rhe_of_int [of n] rhe_of_int [of "- n"] by simp_all
  then show ?thesis by simp
next
  case False
  define n where "n = \<lfloor>y\<rfloor>"
  have "of_int n \<le> y" "y < of_int n + 1" unfolding n_def by linarith+
  moreover have "y \<noteq> of_int n" using False by (simp add: n_def)
  ultimately have lt: "of_int n < y" "y < of_int n + 1" by simp_all
  have "\<lfloor>- y\<rfloor> = - n - 1"
  proof (rule floor_unique)
    show "of_int (- n - 1) \<le> - y" using lt by simp
    show "- y < of_int (- n - 1) + 1" using lt by simp
  qed
  then have f: "\<lfloor>- y\<rfloor> = - \<lfloor>y\<rfloor> - 1" by (simp add: n_def)
  have g: "- y - of_int (- \<lfloor>y\<rfloor> - 1) = 1 - (y - of_int \<lfloor>y\<rfloor>)" by simp
  show ?thesis using lt unfolding n_def
    by (simp add: rhe_def Let_def f g del: of_int_diff of_int_minus) auto
qed

lemma binade_minus: "binade (- x) = binade x"
proof -
  have "binade_from n (- x) = binade_from n x" for n
    by (induction n) simp_all
  then show ?thesis by (simp add: binade_def)
qed

lemma binade_mono:
  assumes "\<bar>x\<bar> \<le> \<bar>y\<bar>"
  shows "binade x \<le> binade y"
proof (rule ccontr)
  assume "\<not> binade x \<le> binade y"
  then have lt: "binade y + 1 \<le> binade x" by simp
  then have "- 1022 < binade x" using binade_range(1) [of y] by simp
  from binade_lower [OF this] have lo: "2 powi (binade x) \<le> \<bar>x\<bar>" .
  have "binade y < 1024" using lt binade_range(2) [of x] by simp
  from binade_upper [OF this] have up: "\<bar>y\<bar> < 2 powi (binade y + 1)" .
  have "(2::real) powi (binade y + 1) \<le> 2 powi (binade x)"
    using lt by (intro power_int_increasing) simp_all
  then show False using lo up assms by simp
qed

lemma nearest_minus: "nearest (- x) = - nearest x"
  by (simp add: nearest_def Let_def binade_minus rhe_minus)

lemma nearest_nonneg:
  assumes "0 \<le> x"
  shows "0 \<le> nearest x"
proof -
  have "(0::real) \<le> x / 2 powi (binade x - 52)" using assms by simp
  then have "0 \<le> rhe (x / 2 powi (binade x - 52))"
    using rhe_lower [of 0] by simp
  then show ?thesis by (simp add: nearest_def Let_def)
qed

lemma nearest_ge_binade:
  assumes "- 1022 < binade x" "0 \<le> x"
  shows "2 powi (binade x) \<le> nearest x"
proof -
  define q :: real where "q = 2 powi (binade x - 52)"
  have q: "0 < q" by (simp add: q_def)
  have "2 powi (binade x) \<le> x" using binade_lower [OF assms(1)] assms(2) by simp
  moreover have e: "(2::real) powi (binade x) = of_int (2 ^ 52) * q"
    by (simp add: q_def power_int_diff)
  ultimately have "of_int (2 ^ 52) * q \<le> x" by simp
  from rhe_scaled_lower [OF q this] show ?thesis
    unfolding e by (simp add: nearest_def Let_def q_def)
qed

lemma nearest_le_binade:
  assumes "binade x < 1024" "0 \<le> x"
  shows "nearest x \<le> 2 powi (binade x + 1)"
proof -
  define q :: real where "q = 2 powi (binade x - 52)"
  have q: "0 < q" by (simp add: q_def)
  have e: "(2::real) powi (binade x + 1) = of_int (2 ^ 53) * q"
    by (simp add: q_def power_int_diff power_int_add)
  have "x < 2 powi (binade x + 1)" using binade_upper [OF assms(1)] assms(2) by simp
  then have "x / q \<le> of_int (2 ^ 53)" using q unfolding e by (simp add: pos_divide_le_eq)
  then have "rhe (x / q) \<le> 2 ^ 53" by (rule rhe_upper)
  then have "(of_int (rhe (x / q)) :: real) \<le> of_int (2 ^ 53)" by (simp only: of_int_le_iff)
  then have "of_int (rhe (x / q)) * q \<le> of_int (2 ^ 53) * q"
    using q by (simp add: mult_right_mono)
  then show ?thesis unfolding e by (simp add: nearest_def Let_def q_def)
qed

lemma nearest_mono_nonneg:
  assumes "0 \<le> x" "x \<le> y"
  shows "nearest x \<le> nearest y"
proof -
  have b: "binade x \<le> binade y" using assms by (intro binade_mono) simp
  show ?thesis
  proof (cases "binade x = binade y")
    case True
    define q :: real where "q = 2 powi (binade y - 52)"
    have q: "0 < q" by (simp add: q_def)
    have "x / q \<le> y / q" using assms q by (simp add: divide_right_mono)
    then have "rhe (x / q) \<le> rhe (y / q)" by (rule rhe_mono)
    then have "(of_int (rhe (x / q)) :: real) \<le> of_int (rhe (y / q))" by simp
    then have "of_int (rhe (x / q)) * q \<le> of_int (rhe (y / q)) * q"
      using q by (simp add: mult_right_mono)
    then show ?thesis by (simp add: nearest_def Let_def True q_def)
  next
    case False
    then have lt: "binade x + 1 \<le> binade y" using b by simp
    have "binade x < 1024" using lt binade_range(2) [of y] by simp
    from nearest_le_binade [OF this assms(1)] have "nearest x \<le> 2 powi (binade x + 1)" .
    also have "\<dots> \<le> 2 powi (binade y)"
      using lt by (intro power_int_increasing) simp_all
    also have "\<dots> \<le> nearest y"
    proof (rule nearest_ge_binade)
      show "- 1022 < binade y" using lt binade_range(1) [of x] by simp
      show "0 \<le> y" using assms by simp
    qed
    finally show ?thesis .
  qed
qed

lemma nearest_mono:
  assumes "x \<le> y"
  shows "nearest x \<le> nearest y"
proof -
  consider "0 \<le> x" | "x < 0" "0 \<le> y" | "y < 0" by linarith
  then show ?thesis
  proof cases
    case 1
    then show ?thesis using assms by (rule nearest_mono_nonneg)
  next
    case 2
    have "0 \<le> nearest (- x)" using 2 by (intro nearest_nonneg) simp
    then have "nearest x \<le> 0" by (simp add: nearest_minus)
    also have "0 \<le> nearest y" using 2 by (intro nearest_nonneg)
    finally show ?thesis .
  next
    case 3
    have "nearest (- y) \<le> nearest (- x)" using 3 assms by (intro nearest_mono_nonneg) simp_all
    then show ?thesis by (simp add: nearest_minus)
  qed
qed

lemma rnd_mono: "x \<le> y \<Longrightarrow> fle (rnd x) (rnd y)"
  using nearest_mono [of x y] by (simp add: rnd_def Let_def)

lemma rnd_minus: "rnd (- x) = fneg (rnd x)"
  by (auto simp: rnd_def Let_def nearest_minus)

lemma rnd_nonneg: "0 \<le> x \<Longrightarrow> rnd x = PInf \<or> (\<exists>r. rnd x = Fin r \<and> 0 \<le> r)"
  using nearest_nonneg [of x] by (simp add: rnd_def Let_def)

lemma rnd_nonpos: "x \<le> 0 \<Longrightarrow> rnd x = NInf \<or> (\<exists>r. rnd x = Fin r \<and> r \<le> 0)"
  using nearest_nonneg [of "- x"] by (simp add: rnd_def Let_def nearest_minus)


lemma nearest_representable:
  assumes "- 1074 \<le> e" "\<bar>n\<bar> < 2 ^ 53"
  shows "nearest (of_int n * 2 powi e) = of_int n * 2 powi e"
proof -
  define r :: real where "r = of_int n * 2 powi e"
  define b where "b = binade r"
  have ar: "\<bar>r\<bar> = of_int \<bar>n\<bar> * 2 powi e" by (simp add: r_def abs_mult)
  have le: "b - 52 \<le> e"
  proof (cases "b = - 1022")
    case True
    then show ?thesis using assms(1) by simp
  next
    case False
    then have "- 1022 < binade r" using binade_range(1) [of r] by (simp add: b_def)
    from binade_lower [OF this] have "2 powi b \<le> \<bar>r\<bar>" by (simp add: b_def)
    also have "\<bar>r\<bar> < of_int (2 ^ 53) * 2 powi e"
      unfolding ar using assms(2) by (intro mult_strict_right_mono) simp_all
    also have "of_int (2 ^ 53) * 2 powi e = (2::real) powi (e + 53)"
      by (simp add: power_int_add)
    finally have lt: "(2::real) powi b < 2 powi (e + 53)" .
    have "b < e + 53"
    proof (rule ccontr)
      assume "\<not> b < e + 53"
      then have "(2::real) powi (e + 53) \<le> 2 powi b"
        by (intro power_int_increasing) simp_all
      with lt show False by simp
    qed
    then show ?thesis by simp
  qed
  define k where "k = nat (e - (b - 52))"
  have k: "e = (b - 52) + int k" using le by (simp add: k_def)
  have pe: "(2::real) powi e = 2 powi (b - 52) * 2 ^ k"
    by (subst k) (simp add: power_int_add)
  have d': "r = of_int (n * 2 ^ k) * 2 powi (b - 52)"
    by (simp add: r_def pe)
  have d: "r / 2 powi (b - 52) = of_int (n * 2 ^ k)"
    by (subst d') simp
  have "rhe (r / 2 powi (b - 52)) = n * 2 ^ k" unfolding d by (rule rhe_of_int)
  then have "nearest r = of_int (n * 2 ^ k) * 2 powi (b - 52)"
    by (simp add: nearest_def Let_def b_def)
  also have "\<dots> = r" by (rule d' [symmetric])
  finally show ?thesis by (simp add: r_def)
qed

lemma binade_Fin:
  assumes "rnd x = Fin r"
  shows "binade x < 1024"
proof (rule ccontr)
  assume "\<not> binade x < 1024"
  then have "- 1022 < binade x" "binade x = 1024" using binade_range(2) [of x] by simp_all
  with binade_lower [of x] have "2 powi 1024 \<le> \<bar>x\<bar>" by simp
  then consider "2 ^ 1024 \<le> x" | "2 ^ 1024 \<le> - x" by (auto simp: abs_real_def split: if_splits)
  then show False
  proof cases
    case 1
    from rnd_overflow [OF this] assms show False by simp
  next
    case 2
    from rnd_overflow [OF this] assms show False by (simp add: rnd_minus)
  qed
qed

lemma rnd_Fin_nearest: "rnd x = Fin r \<Longrightarrow> r = nearest x"
  by (auto simp: rnd_def Let_def split: if_splits)

lemma rnd_Fin_bound: "rnd x = Fin r \<Longrightarrow> \<bar>r\<bar> < 2 ^ 1024"
  by (auto simp: rnd_def Let_def abs_real_def split: if_splits)

lemma nearest_idem:
  assumes "binade x < 1024"
  shows "nearest (nearest x) = nearest x"
proof -
  define q :: real where "q = 2 powi (binade x - 52)"
  define m where "m = rhe (x / q)"
  have q: "0 < q" by (simp add: q_def)
  have nx: "nearest x = of_int m * 2 powi (binade x - 52)"
    by (simp add: nearest_def Let_def m_def q_def)
  have e: "(2::real) powi (binade x + 1) = of_int (2 ^ 53) * q"
    by (simp add: q_def power_int_diff power_int_add)
  have "\<bar>x\<bar> < of_int (2 ^ 53) * q" using binade_upper [OF assms] unfolding e .
  then have "\<bar>x\<bar> / q < of_int (2 ^ 53)" using q by (simp add: pos_divide_less_eq)
  then have "x / q \<le> of_int (2 ^ 53)" "of_int (- (2 ^ 53)) \<le> x / q"
    using q by (simp_all add: abs_real_def divide_simps split: if_splits)
  then have "m \<le> 2 ^ 53" "- (2 ^ 53) \<le> m"
    unfolding m_def by (simp_all only: rhe_upper rhe_lower)
  then consider "\<bar>m\<bar> < 2 ^ 53" | "m = 2 ^ 53" | "m = - (2 ^ 53)" by linarith
  then show ?thesis
  proof cases
    case 1
    have "- 1074 \<le> binade x - 52" using binade_range(1) [of x] by simp
    from nearest_representable [OF this 1] show ?thesis unfolding nx .
  next
    case 2
    have a: "- 1074 \<le> binade x - 51" using binade_range(1) [of x] by simp
    have b: "\<bar>2 ^ 52 :: int\<bar> < 2 ^ 53" by simp
    have "of_int m * (2::real) powi (binade x - 52) = of_int (2 ^ 52) * 2 powi (binade x - 51)"
      by (simp add: 2 power_int_diff)
    with nearest_representable [OF a b] show ?thesis unfolding nx by simp
  next
    case 3
    have a: "- 1074 \<le> binade x - 51" using binade_range(1) [of x] by simp
    have b: "\<bar>- (2 ^ 52) :: int\<bar> < 2 ^ 53" by simp
    have "of_int m * (2::real) powi (binade x - 52) = of_int (- (2 ^ 52)) * 2 powi (binade x - 51)"
      by (simp add: 3 power_int_diff)
    with nearest_representable [OF a b] show ?thesis unfolding nx by simp
  qed
qed

lemma rnd_idem:
  assumes "rnd x = Fin r"
  shows "rnd r = Fin r"
proof -
  note r = rnd_Fin_nearest [OF assms] rnd_Fin_bound [OF assms]
  have "nearest r = r" unfolding r(1) by (rule nearest_idem) (rule binade_Fin [OF assms])
  then show ?thesis using r(2) by (simp add: rnd_def Let_def abs_real_def split: if_splits)
qed

lemma nearest_error: "\<bar>nearest x - x\<bar> \<le> 2 powi (binade x - 53)"
proof -
  define q :: real where "q = 2 powi (binade x - 52)"
  have q: "0 < q" by (simp add: q_def)
  have "of_int (rhe (x / q)) * q - x = (of_int (rhe (x / q)) - x / q) * q"
    using q by (simp add: left_diff_distrib)
  then have "\<bar>of_int (rhe (x / q)) * q - x\<bar> = \<bar>of_int (rhe (x / q)) - x / q\<bar> * q"
    using q by (simp only: abs_mult abs_of_pos)
  also have "\<dots> \<le> 1 / 2 * q" using q rhe_error [of "x / q"] by (intro mult_right_mono) simp_all
  also have "\<dots> = 2 powi (binade x - 53)" by (simp add: q_def power_int_diff)
  finally show ?thesis by (simp add: nearest_def Let_def q_def)
qed

lemma nearest_rel_error: "\<bar>nearest x - x\<bar> \<le> \<bar>x\<bar> / 2 ^ 53 + 2 powi (- 1075)"
proof (cases "binade x = - 1022")
  case True
  with nearest_error [of x] have "\<bar>nearest x - x\<bar> \<le> 2 powi (- 1075)" by simp
  also have "\<dots> \<le> \<bar>x\<bar> / 2 ^ 53 + 2 powi (- 1075)" by simp
  finally show ?thesis .
next
  case False
  then have "- 1022 < binade x" using binade_range(1) [of x] by simp
  from binade_lower [OF this] have "2 powi (binade x) / 2 ^ 53 \<le> \<bar>x\<bar> / 2 ^ 53"
    by (simp add: divide_right_mono)
  moreover have "(2::real) powi (binade x - 53) = 2 powi (binade x) / 2 ^ 53"
    by (simp add: power_int_diff)
  ultimately have "2 powi (binade x - 53) \<le> \<bar>x\<bar> / 2 ^ 53" by simp
  with nearest_error [of x] have "\<bar>nearest x - x\<bar> \<le> \<bar>x\<bar> / 2 ^ 53" by simp
  also have "\<dots> \<le> \<bar>x\<bar> / 2 ^ 53 + 2 powi (- 1075)" by simp
  finally show ?thesis .
qed

lemma rnd_error: "rnd x = Fin r \<Longrightarrow> \<bar>r - x\<bar> \<le> \<bar>x\<bar> / 2 ^ 53 + 2 powi (- 1075)"
  using nearest_rel_error [of x] by (auto simp: rnd_def Let_def split: if_splits)

lemma rnd_1: "rnd 1 = Fin 1"
proof -
  have b: "binade 1 = 0"
    by (rule binade_eqI) simp_all
  have r: "rhe (1 / 2 powi (0 - 52)) = 4503599627370496"
    by (rule rhe_eqI) (simp_all add: power_int_minus_divide)
  show ?thesis
    using rnd_eqI [OF b r] by (simp add: power_int_minus_divide)
qed

lemma fle_Fin_between:
  assumes "fle (Fin a) d" "fle d (Fin b)"
  shows "\<exists>x. d = Fin x \<and> a \<le> x \<and> x \<le> b"
  using assms by (cases d) simp_all

lemma fle_trans: "fle a b \<Longrightarrow> fle b c \<Longrightarrow> fle a c"
  by (cases a; cases b; cases c) simp_all

lemma fmul_fneg: "fmul (fneg a) b = fneg (fmul a b)"
  by (cases a; cases b) (auto simp: rnd_minus)

lemma fle_fneg: "fle a b \<Longrightarrow> fle (fneg b) (fneg a)"
  by (cases a; cases b) simp_all


subsection \<open>Roundings at the numbers of the examples\<close>

lemma rnd_val_0: "rnd (0) = Fin (0)"
proof -
  have b: "binade (0) = - 1022"
    by (rule binade_eqI) (simp_all add: power_int_minus_divide)
  have r: "rhe (0 / 2 powi (- 1022 - 52)) = 0"
    by (rule rhe_eqI) (simp_all add: power_int_minus_divide)
  show ?thesis
    using rnd_eqI [OF b r] by (simp add: power_int_minus_divide)
qed

lemma rnd_val_1: "rnd (1076154966024109530279580116045 / 1076154966024109413629211106003289717723745296590543120108327301025046293202609101212342783577252885830398182439497599236786557955676041314061975617670544834041218966978499430055292493532503445244154191526191032889459105329265035575618285860377372911545948985983714623669661161736418836299827548279852992159749169546641960180764219762832432152244594446314766336) = Fin (0)"
proof -
  have b: "binade (1076154966024109530279580116045 / 1076154966024109413629211106003289717723745296590543120108327301025046293202609101212342783577252885830398182439497599236786557955676041314061975617670544834041218966978499430055292493532503445244154191526191032889459105329265035575618285860377372911545948985983714623669661161736418836299827548279852992159749169546641960180764219762832432152244594446314766336) = - 1022"
    by (rule binade_eqI) (simp_all add: power_int_minus_divide)
  have r: "rhe (1076154966024109530279580116045 / 1076154966024109413629211106003289717723745296590543120108327301025046293202609101212342783577252885830398182439497599236786557955676041314061975617670544834041218966978499430055292493532503445244154191526191032889459105329265035575618285860377372911545948985983714623669661161736418836299827548279852992159749169546641960180764219762832432152244594446314766336 / 2 powi (- 1022 - 52)) = 0"
    by (rule rhe_eqI) (simp_all add: power_int_minus_divide)
  show ?thesis
    using rnd_eqI [OF b r] by (simp add: power_int_minus_divide)
qed

lemma rnd_val_2: "rnd (1 / 1000000000000000000000000000000000000000000000000000000000000000000000000000000000000000000000000000000000000000000000000000000000000000000000000000000000000000000000000000000000000000000000000000000000000000000000000000000000000000000000000000000000000000000000000000000000000000000000000000000000000) = Fin (6032057205060441 / 6032057205060440848842124543157735677050252251748505781796615064961622344493727293370973578138265743708225425014400837164813540499979063179105919597766951022193355091707896034850684039059079180396788349106095584290087446076413771468940477241550670753145517602931224392424029547429993824129889235158145614364972941312)"
proof -
  have b: "binade (1 / 1000000000000000000000000000000000000000000000000000000000000000000000000000000000000000000000000000000000000000000000000000000000000000000000000000000000000000000000000000000000000000000000000000000000000000000000000000000000000000000000000000000000000000000000000000000000000000000000000000000000000) = - 997"
    by (rule binade_eqI) (simp_all add: power_int_minus_divide)
  have r: "rhe (1 / 1000000000000000000000000000000000000000000000000000000000000000000000000000000000000000000000000000000000000000000000000000000000000000000000000000000000000000000000000000000000000000000000000000000000000000000000000000000000000000000000000000000000000000000000000000000000000000000000000000000000000 / 2 powi (- 997 - 52)) = 6032057205060441"
    by (rule rhe_eqI) (simp_all add: power_int_minus_divide)
  show ?thesis
    using rnd_eqI [OF b r] by (simp add: power_int_minus_divide)
qed

lemma rnd_val_3: "rnd (1 / 1000000000000000000000000000000) = Fin (178405961588245 / 178405961588244985132285746181186892047843328)"
proof -
  have b: "binade (1 / 1000000000000000000000000000000) = - 100"
    by (rule binade_eqI) (simp_all add: power_int_minus_divide)
  have r: "rhe (1 / 1000000000000000000000000000000 / 2 powi (- 100 - 52)) = 5708990770823840"
    by (rule rhe_eqI) (simp_all add: power_int_minus_divide)
  show ?thesis
    using rnd_eqI [OF b r] by (simp add: power_int_minus_divide)
qed

lemma rnd_val_4: "rnd (7717604081766884531406898195387 / 340282366920938463463374607431768211456) = Fin (1713652349303737 / 75557863725914323419136)"
proof -
  have b: "binade (7717604081766884531406898195387 / 340282366920938463463374607431768211456) = - 26"
    by (rule binade_eqI) (simp_all add: power_int_minus_divide)
  have r: "rhe (7717604081766884531406898195387 / 340282366920938463463374607431768211456 / 2 powi (- 26 - 52)) = 6854609397214948"
    by (rule rhe_eqI) (simp_all add: power_int_minus_divide)
  show ?thesis
    using rnd_eqI [OF b r] by (simp add: power_int_minus_divide)
qed

lemma rnd_val_5: "rnd (2142065436629671 / 37778931862957161709568) = Fin (2142065436629671 / 37778931862957161709568)"
proof -
  have b: "binade (2142065436629671 / 37778931862957161709568) = - 25"
    by (rule binade_eqI) (simp_all add: power_int_minus_divide)
  have r: "rhe (2142065436629671 / 37778931862957161709568 / 2 powi (- 25 - 52)) = 8568261746518684"
    by (rule rhe_eqI) (simp_all add: power_int_minus_divide)
  show ?thesis
    using rnd_eqI [OF b r] by (simp add: power_int_minus_divide)
qed

lemma rnd_val_6: "rnd (567 / 10000000000) = Fin (2142065436629671 / 37778931862957161709568)"
proof -
  have b: "binade (567 / 10000000000) = - 25"
    by (rule binade_eqI) (simp_all add: power_int_minus_divide)
  have r: "rhe (567 / 10000000000 / 2 powi (- 25 - 52)) = 8568261746518684"
    by (rule rhe_eqI) (simp_all add: power_int_minus_divide)
  show ?thesis
    using rnd_eqI [OF b r] by (simp add: power_int_minus_divide)
qed

lemma rnd_val_7: "rnd (2263756080649101 / 4611686018427387904) = Fin (2263756080649101 / 4611686018427387904)"
proof -
  have b: "binade (2263756080649101 / 4611686018427387904) = - 11"
    by (rule binade_eqI) (simp_all add: power_int_minus_divide)
  have r: "rhe (2263756080649101 / 4611686018427387904 / 2 powi (- 11 - 52)) = 4527512161298202"
    by (rule rhe_eqI) (simp_all add: power_int_minus_divide)
  show ?thesis
    using rnd_eqI [OF b r] by (simp add: power_int_minus_divide)
qed

lemma rnd_val_8: "rnd (12980742146337070512478121581609 / 20769187434139310514121985316880384) = Fin (1441151880758559 / 2305843009213693952)"
proof -
  have b: "binade (12980742146337070512478121581609 / 20769187434139310514121985316880384) = - 11"
    by (rule binade_eqI) (simp_all add: power_int_minus_divide)
  have r: "rhe (12980742146337070512478121581609 / 20769187434139310514121985316880384 / 2 powi (- 11 - 52)) = 5764607523034236"
    by (rule rhe_eqI) (simp_all add: power_int_minus_divide)
  show ?thesis
    using rnd_eqI [OF b r] by (simp add: power_int_minus_divide)
qed

lemma rnd_val_9: "rnd (- (1718194570023240784082655465 / 2535301200456458802993406410752)) = Fin (- (97668053628197 / 144115188075855872))"
proof -
  have b: "binade (- (1718194570023240784082655465 / 2535301200456458802993406410752)) = - 11"
    by (rule binade_eqI) (simp_all add: power_int_minus_divide)
  have r: "rhe (- (1718194570023240784082655465 / 2535301200456458802993406410752) / 2 powi (- 11 - 52)) = - 6250755432204608"
    by (rule rhe_eqI) (simp_all add: power_int_minus_divide)
  show ?thesis
    using rnd_eqI [OF b r] by (simp add: power_int_minus_divide)
qed

lemma rnd_val_10: "rnd (10654428455243715989949232064441 / 10384593717069655257060992658440192) = Fin (4731516714093205 / 4611686018427387904)"
proof -
  have b: "binade (10654428455243715989949232064441 / 10384593717069655257060992658440192) = - 10"
    by (rule binade_eqI) (simp_all add: power_int_minus_divide)
  have r: "rhe (10654428455243715989949232064441 / 10384593717069655257060992658440192 / 2 powi (- 10 - 52)) = 4731516714093205"
    by (rule rhe_eqI) (simp_all add: power_int_minus_divide)
  show ?thesis
    using rnd_eqI [OF b r] by (simp add: power_int_minus_divide)
qed

lemma rnd_val_11: "rnd (- (3436353588324870024060347285 / 2535301200456458802993406410752)) = Fin (- (6250690763999719 / 4611686018427387904))"
proof -
  have b: "binade (- (3436353588324870024060347285 / 2535301200456458802993406410752)) = - 10"
    by (rule binade_eqI) (simp_all add: power_int_minus_divide)
  have r: "rhe (- (3436353588324870024060347285 / 2535301200456458802993406410752) / 2 powi (- 10 - 52)) = - 6250690763999719"
    by (rule rhe_eqI) (simp_all add: power_int_minus_divide)
  show ?thesis
    using rnd_eqI [OF b r] by (simp add: power_int_minus_divide)
qed

lemma rnd_val_12: "rnd (1274381380158623354301017677245 / 649037107316853453566312041152512) = Fin (2263756080649101 / 1152921504606846976)"
proof -
  have b: "binade (1274381380158623354301017677245 / 649037107316853453566312041152512) = - 9"
    by (rule binade_eqI) (simp_all add: power_int_minus_divide)
  have r: "rhe (1274381380158623354301017677245 / 649037107316853453566312041152512 / 2 powi (- 9 - 52)) = 4527512161298202"
    by (rule rhe_eqI) (simp_all add: power_int_minus_divide)
  show ?thesis
    using rnd_eqI [OF b r] by (simp add: power_int_minus_divide)
qed

lemma rnd_val_13: "rnd (517273451951761 / 257285720899584000) = Fin (4635901941485211 / 2305843009213693952)"
proof -
  have b: "binade (517273451951761 / 257285720899584000) = - 9"
    by (rule binade_eqI) (simp_all add: power_int_minus_divide)
  have r: "rhe (517273451951761 / 257285720899584000 / 2 powi (- 9 - 52)) = 4635901941485211"
    by (rule rhe_eqI) (simp_all add: power_int_minus_divide)
  show ?thesis
    using rnd_eqI [OF b r] by (simp add: power_int_minus_divide)
qed

lemma rnd_val_14: "rnd (8795984726384771 / 4116571534393344000) = Fin (1231738579120411 / 576460752303423488)"
proof -
  have b: "binade (8795984726384771 / 4116571534393344000) = - 9"
    by (rule binade_eqI) (simp_all add: power_int_minus_divide)
  have r: "rhe (8795984726384771 / 4116571534393344000 / 2 powi (- 9 - 52)) = 4926954316481644"
    by (rule rhe_eqI) (simp_all add: power_int_minus_divide)
  show ?thesis
    using rnd_eqI [OF b r] by (simp add: power_int_minus_divide)
qed

lemma rnd_val_15: "rnd (1 / 468) = Fin (2463507488476169 / 1152921504606846976)"
proof -
  have b: "binade (1 / 468) = - 9"
    by (rule binade_eqI) (simp_all add: power_int_minus_divide)
  have r: "rhe (1 / 468 / 2 powi (- 9 - 52)) = 4927014976952338"
    by (rule rhe_eqI) (simp_all add: power_int_minus_divide)
  show ?thesis
    using rnd_eqI [OF b r] by (simp add: power_int_minus_divide)
qed

lemma rnd_val_16: "rnd (- (601442257929 / 281474976710656)) = Fin (- (601442257929 / 281474976710656))"
proof -
  have b: "binade (- (601442257929 / 281474976710656)) = - 9"
    by (rule binade_eqI) (simp_all add: power_int_minus_divide)
  have r: "rhe (- (601442257929 / 281474976710656) / 2 powi (- 9 - 52)) = - 4927014976954368"
    by (rule rhe_eqI) (simp_all add: power_int_minus_divide)
  show ?thesis
    using rnd_eqI [OF b r] by (simp add: power_int_minus_divide)
qed

lemma rnd_val_17: "rnd (- (1202872071221 / 281474976710656)) = Fin (- (1202872071221 / 281474976710656))"
proof -
  have b: "binade (- (1202872071221 / 281474976710656)) = - 8"
    by (rule binade_eqI) (simp_all add: power_int_minus_divide)
  have r: "rhe (- (1202872071221 / 281474976710656) / 2 powi (- 8 - 52)) = - 4926964003721216"
    by (rule rhe_eqI) (simp_all add: power_int_minus_divide)
  show ?thesis
    using rnd_eqI [OF b r] by (simp add: power_int_minus_divide)
qed

lemma rnd_val_18: "rnd (406434190950153910049466127 / 79228162514264337593543950336) = Fin (2957197946308253 / 576460752303423488)"
proof -
  have b: "binade (406434190950153910049466127 / 79228162514264337593543950336) = - 8"
    by (rule binade_eqI) (simp_all add: power_int_minus_divide)
  have r: "rhe (406434190950153910049466127 / 79228162514264337593543950336 / 2 powi (- 8 - 52)) = 5914395892616506"
    by (rule rhe_eqI) (simp_all add: power_int_minus_divide)
  show ?thesis
    using rnd_eqI [OF b r] by (simp add: power_int_minus_divide)
qed

lemma rnd_val_19: "rnd (2957197946308253 / 576460752303423488) = Fin (2957197946308253 / 576460752303423488)"
proof -
  have b: "binade (2957197946308253 / 576460752303423488) = - 8"
    by (rule binade_eqI) (simp_all add: power_int_minus_divide)
  have r: "rhe (2957197946308253 / 576460752303423488 / 2 powi (- 8 - 52)) = 5914395892616506"
    by (rule rhe_eqI) (simp_all add: power_int_minus_divide)
  show ?thesis
    using rnd_eqI [OF b r] by (simp add: power_int_minus_divide)
qed

lemma rnd_val_20: "rnd (28389100284559229 / 4611686018427387904) = Fin (7097275071139807 / 1152921504606846976)"
proof -
  have b: "binade (28389100284559229 / 4611686018427387904) = - 8"
    by (rule binade_eqI) (simp_all add: power_int_minus_divide)
  have r: "rhe (28389100284559229 / 4611686018427387904 / 2 powi (- 8 - 52)) = 7097275071139807"
    by (rule rhe_eqI) (simp_all add: power_int_minus_divide)
  show ?thesis
    using rnd_eqI [OF b r] by (simp add: power_int_minus_divide)
qed

lemma rnd_val_21: "rnd (7074237752028441 / 288230376151711744) = Fin (7074237752028441 / 288230376151711744)"
proof -
  have b: "binade (7074237752028441 / 288230376151711744) = - 6"
    by (rule binade_eqI) (simp_all add: power_int_minus_divide)
  have r: "rhe (7074237752028441 / 288230376151711744 / 2 powi (- 6 - 52)) = 7074237752028441"
    by (rule rhe_eqI) (simp_all add: power_int_minus_divide)
  show ?thesis
    using rnd_eqI [OF b r] by (simp add: power_int_minus_divide)
qed

lemma rnd_val_22: "rnd (31859534503965583039006548809747 / 1298074214633706907132624082305024) = Fin (7074237752028441 / 288230376151711744)"
proof -
  have b: "binade (31859534503965583039006548809747 / 1298074214633706907132624082305024) = - 6"
    by (rule binade_eqI) (simp_all add: power_int_minus_divide)
  have r: "rhe (31859534503965583039006548809747 / 1298074214633706907132624082305024 / 2 powi (- 6 - 52)) = 7074237752028441"
    by (rule rhe_eqI) (simp_all add: power_int_minus_divide)
  show ?thesis
    using rnd_eqI [OF b r] by (simp add: power_int_minus_divide)
qed

lemma rnd_val_23: "rnd (1 / 40) = Fin (3602879701896397 / 144115188075855872)"
proof -
  have b: "binade (1 / 40) = - 6"
    by (rule binade_eqI) (simp_all add: power_int_minus_divide)
  have r: "rhe (1 / 40 / 2 powi (- 6 - 52)) = 7205759403792794"
    by (rule rhe_eqI) (simp_all add: power_int_minus_divide)
  show ?thesis
    using rnd_eqI [OF b r] by (simp add: power_int_minus_divide)
qed

lemma rnd_val_24: "rnd (7074237752028441 / 144115188075855872) = Fin (7074237752028441 / 144115188075855872)"
proof -
  have b: "binade (7074237752028441 / 144115188075855872) = - 5"
    by (rule binade_eqI) (simp_all add: power_int_minus_divide)
  have r: "rhe (7074237752028441 / 144115188075855872 / 2 powi (- 5 - 52)) = 7074237752028441"
    by (rule rhe_eqI) (simp_all add: power_int_minus_divide)
  show ?thesis
    using rnd_eqI [OF b r] by (simp add: power_int_minus_divide)
qed

lemma rnd_val_25: "rnd (- (1 / 20)) = Fin (- (3602879701896397 / 72057594037927936))"
proof -
  have b: "binade (- (1 / 20)) = - 5"
    by (rule binade_eqI) (simp_all add: power_int_minus_divide)
  have r: "rhe (- (1 / 20) / 2 powi (- 5 - 52)) = - 7205759403792794"
    by (rule rhe_eqI) (simp_all add: power_int_minus_divide)
  show ?thesis
    using rnd_eqI [OF b r] by (simp add: power_int_minus_divide)
qed

lemma rnd_val_26: "rnd (1 / 20) = Fin (3602879701896397 / 72057594037927936)"
proof -
  have b: "binade (1 / 20) = - 5"
    by (rule binade_eqI) (simp_all add: power_int_minus_divide)
  have r: "rhe (1 / 20 / 2 powi (- 5 - 52)) = 7205759403792794"
    by (rule rhe_eqI) (simp_all add: power_int_minus_divide)
  show ?thesis
    using rnd_eqI [OF b r] by (simp add: power_int_minus_divide)
qed

lemma rnd_val_27: "rnd (1080863910568919 / 18014398509481984) = Fin (1080863910568919 / 18014398509481984)"
proof -
  have b: "binade (1080863910568919 / 18014398509481984) = - 5"
    by (rule binade_eqI) (simp_all add: power_int_minus_divide)
  have r: "rhe (1080863910568919 / 18014398509481984 / 2 powi (- 5 - 52)) = 8646911284551352"
    by (rule rhe_eqI) (simp_all add: power_int_minus_divide)
  show ?thesis
    using rnd_eqI [OF b r] by (simp add: power_int_minus_divide)
qed

lemma rnd_val_28: "rnd (3 / 50) = Fin (1080863910568919 / 18014398509481984)"
proof -
  have b: "binade (3 / 50) = - 5"
    by (rule binade_eqI) (simp_all add: power_int_minus_divide)
  have r: "rhe (3 / 50 / 2 powi (- 5 - 52)) = 8646911284551352"
    by (rule rhe_eqI) (simp_all add: power_int_minus_divide)
  show ?thesis
    using rnd_eqI [OF b r] by (simp add: power_int_minus_divide)
qed

lemma rnd_val_29: "rnd (1 / 5) = Fin (3602879701896397 / 18014398509481984)"
proof -
  have b: "binade (1 / 5) = - 3"
    by (rule binade_eqI) (simp_all add: power_int_minus_divide)
  have r: "rhe (1 / 5 / 2 powi (- 3 - 52)) = 7205759403792794"
    by (rule rhe_eqI) (simp_all add: power_int_minus_divide)
  show ?thesis
    using rnd_eqI [OF b r] by (simp add: power_int_minus_divide)
qed

lemma rnd_val_30: "rnd (48 / 209) = Fin (8274556253159189 / 36028797018963968)"
proof -
  have b: "binade (48 / 209) = - 3"
    by (rule binade_eqI) (simp_all add: power_int_minus_divide)
  have r: "rhe (48 / 209 / 2 powi (- 3 - 52)) = 8274556253159189"
    by (rule rhe_eqI) (simp_all add: power_int_minus_divide)
  show ?thesis
    using rnd_eqI [OF b r] by (simp add: power_int_minus_divide)
qed

lemma rnd_val_31: "rnd (2 / 5) = Fin (3602879701896397 / 9007199254740992)"
proof -
  have b: "binade (2 / 5) = - 2"
    by (rule binade_eqI) (simp_all add: power_int_minus_divide)
  have r: "rhe (2 / 5 / 2 powi (- 2 - 52)) = 7205759403792794"
    by (rule rhe_eqI) (simp_all add: power_int_minus_divide)
  show ?thesis
    using rnd_eqI [OF b r] by (simp add: power_int_minus_divide)
qed

lemma rnd_val_32: "rnd (- (8570371705870755 / 18014398509481984)) = Fin (- (8570371705870755 / 18014398509481984))"
proof -
  have b: "binade (- (8570371705870755 / 18014398509481984)) = - 2"
    by (rule binade_eqI) (simp_all add: power_int_minus_divide)
  have r: "rhe (- (8570371705870755 / 18014398509481984) / 2 powi (- 2 - 52)) = - 8570371705870755"
    by (rule rhe_eqI) (simp_all add: power_int_minus_divide)
  show ?thesis
    using rnd_eqI [OF b r] by (simp add: power_int_minus_divide)
qed

lemma rnd_val_33: "rnd (282969510081137625 / 576460752303423488) = Fin (8842797190035551 / 18014398509481984)"
proof -
  have b: "binade (282969510081137625 / 576460752303423488) = - 2"
    by (rule binade_eqI) (simp_all add: power_int_minus_divide)
  have r: "rhe (282969510081137625 / 576460752303423488 / 2 powi (- 2 - 52)) = 8842797190035551"
    by (rule rhe_eqI) (simp_all add: power_int_minus_divide)
  show ?thesis
    using rnd_eqI [OF b r] by (simp add: power_int_minus_divide)
qed

lemma rnd_val_34: "rnd (1 / 2) = Fin (1 / 2)"
proof -
  have b: "binade (1 / 2) = - 1"
    by (rule binade_eqI) (simp_all add: power_int_minus_divide)
  have r: "rhe (1 / 2 / 2 powi (- 1 - 52)) = 4503599627370496"
    by (rule rhe_eqI) (simp_all add: power_int_minus_divide)
  show ?thesis
    using rnd_eqI [OF b r] by (simp add: power_int_minus_divide)
qed

lemma rnd_val_35: "rnd (24891713970556634976749849816463 / 40564819207303340847894502572032) = Fin (2763535397249565 / 4503599627370496)"
proof -
  have b: "binade (24891713970556634976749849816463 / 40564819207303340847894502572032) = - 1"
    by (rule binade_eqI) (simp_all add: power_int_minus_divide)
  have r: "rhe (24891713970556634976749849816463 / 40564819207303340847894502572032 / 2 powi (- 1 - 52)) = 5527070794499130"
    by (rule rhe_eqI) (simp_all add: power_int_minus_divide)
  show ?thesis
    using rnd_eqI [OF b r] by (simp add: power_int_minus_divide)
qed

lemma rnd_val_36: "rnd (12446583298829740467921236391531 / 20282409603651670423947251286016) = Fin (5527393342510285 / 9007199254740992)"
proof -
  have b: "binade (12446583298829740467921236391531 / 20282409603651670423947251286016) = - 1"
    by (rule binade_eqI) (simp_all add: power_int_minus_divide)
  have r: "rhe (12446583298829740467921236391531 / 20282409603651670423947251286016 / 2 powi (- 1 - 52)) = 5527393342510285"
    by (rule rhe_eqI) (simp_all add: power_int_minus_divide)
  show ?thesis
    using rnd_eqI [OF b r] by (simp add: power_int_minus_divide)
qed

lemma rnd_val_37: "rnd (12843374846911123897904161093371 / 20282409603651670423947251286016) = Fin (2851802093786465 / 4503599627370496)"
proof -
  have b: "binade (12843374846911123897904161093371 / 20282409603651670423947251286016) = - 1"
    by (rule binade_eqI) (simp_all add: power_int_minus_divide)
  have r: "rhe (12843374846911123897904161093371 / 20282409603651670423947251286016 / 2 powi (- 1 - 52)) = 5703604187572930"
    by (rule rhe_eqI) (simp_all add: power_int_minus_divide)
  show ?thesis
    using rnd_eqI [OF b r] by (simp add: power_int_minus_divide)
qed

lemma rnd_val_38: "rnd (1) = Fin (1)"
proof -
  have b: "binade (1) = 0"
    by (rule binade_eqI) (simp_all add: power_int_minus_divide)
  have r: "rhe (1 / 2 powi (0 - 52)) = 4503599627370496"
    by (rule rhe_eqI) (simp_all add: power_int_minus_divide)
  show ?thesis
    using rnd_eqI [OF b r] by (simp add: power_int_minus_divide)
qed

lemma rnd_val_39: "rnd (- (41372781265795945 / 36028797018963968)) = Fin (- (5171597658224493 / 4503599627370496))"
proof -
  have b: "binade (- (41372781265795945 / 36028797018963968)) = 0"
    by (rule binade_eqI) (simp_all add: power_int_minus_divide)
  have r: "rhe (- (41372781265795945 / 36028797018963968) / 2 powi (0 - 52)) = - 5171597658224493"
    by (rule rhe_eqI) (simp_all add: power_int_minus_divide)
  show ?thesis
    using rnd_eqI [OF b r] by (simp add: power_int_minus_divide)
qed

lemma rnd_val_40: "rnd (41372781265795945 / 36028797018963968) = Fin (5171597658224493 / 4503599627370496)"
proof -
  have b: "binade (41372781265795945 / 36028797018963968) = 0"
    by (rule binade_eqI) (simp_all add: power_int_minus_divide)
  have r: "rhe (41372781265795945 / 36028797018963968 / 2 powi (0 - 52)) = 5171597658224493"
    by (rule rhe_eqI) (simp_all add: power_int_minus_divide)
  show ?thesis
    using rnd_eqI [OF b r] by (simp add: power_int_minus_divide)
qed

lemma rnd_val_41: "rnd (51820028286715065937427837599473 / 40564819207303340847894502572032) = Fin (5753178854063797 / 4503599627370496)"
proof -
  have b: "binade (51820028286715065937427837599473 / 40564819207303340847894502572032) = 0"
    by (rule binade_eqI) (simp_all add: power_int_minus_divide)
  have r: "rhe (51820028286715065937427837599473 / 40564819207303340847894502572032 / 2 powi (0 - 52)) = 5753178854063797"
    by (rule rhe_eqI) (simp_all add: power_int_minus_divide)
  show ?thesis
    using rnd_eqI [OF b r] by (simp add: power_int_minus_divide)
qed

lemma rnd_val_42: "rnd (- (3 / 2)) = Fin (- (3 / 2))"
proof -
  have b: "binade (- (3 / 2)) = 0"
    by (rule binade_eqI) (simp_all add: power_int_minus_divide)
  have r: "rhe (- (3 / 2) / 2 powi (0 - 52)) = - 6755399441055744"
    by (rule rhe_eqI) (simp_all add: power_int_minus_divide)
  show ?thesis
    using rnd_eqI [OF b r] by (simp add: power_int_minus_divide)
qed

lemma rnd_val_43: "rnd (24966409064475228916820969956241 / 5070602400912917605986812821504) = Fin (5543656437118123 / 1125899906842624)"
proof -
  have b: "binade (24966409064475228916820969956241 / 5070602400912917605986812821504) = 2"
    by (rule binade_eqI) (simp_all add: power_int_minus_divide)
  have r: "rhe (24966409064475228916820969956241 / 5070602400912917605986812821504 / 2 powi (2 - 52)) = 5543656437118123"
    by (rule rhe_eqI) (simp_all add: power_int_minus_divide)
  show ?thesis
    using rnd_eqI [OF b r] by (simp add: power_int_minus_divide)
qed

lemma rnd_val_44: "rnd (930071214753211531596905 / 75557863725914323419136) = Fin (6929570546397653 / 562949953421312)"
proof -
  have b: "binade (930071214753211531596905 / 75557863725914323419136) = 3"
    by (rule binade_eqI) (simp_all add: power_int_minus_divide)
  have r: "rhe (930071214753211531596905 / 75557863725914323419136 / 2 powi (3 - 52)) = 6929570546397653"
    by (rule rhe_eqI) (simp_all add: power_int_minus_divide)
  show ?thesis
    using rnd_eqI [OF b r] by (simp add: power_int_minus_divide)
qed

lemma rnd_val_45: "rnd (6929570546397653 / 281474976710656) = Fin (6929570546397653 / 281474976710656)"
proof -
  have b: "binade (6929570546397653 / 281474976710656) = 4"
    by (rule binade_eqI) (simp_all add: power_int_minus_divide)
  have r: "rhe (6929570546397653 / 281474976710656 / 2 powi (4 - 52)) = 6929570546397653"
    by (rule rhe_eqI) (simp_all add: power_int_minus_divide)
  show ?thesis
    using rnd_eqI [OF b r] by (simp add: power_int_minus_divide)
qed

lemma rnd_val_46: "rnd (25) = Fin (25)"
proof -
  have b: "binade (25) = 4"
    by (rule binade_eqI) (simp_all add: power_int_minus_divide)
  have r: "rhe (25 / 2 powi (4 - 52)) = 7036874417766400"
    by (rule rhe_eqI) (simp_all add: power_int_minus_divide)
  show ?thesis
    using rnd_eqI [OF b r] by (simp add: power_int_minus_divide)
qed

lemma rnd_val_47: "rnd (54976256080059096 / 2199050241627409) = Fin (3518437211403097 / 140737488355328)"
proof -
  have b: "binade (54976256080059096 / 2199050241627409) = 4"
    by (rule binade_eqI) (simp_all add: power_int_minus_divide)
  have r: "rhe (54976256080059096 / 2199050241627409 / 2 powi (4 - 52)) = 7036874422806194"
    by (rule rhe_eqI) (simp_all add: power_int_minus_divide)
  show ?thesis
    using rnd_eqI [OF b r] by (simp add: power_int_minus_divide)
qed

lemma rnd_val_48: "rnd (54976256158806024 / 2199050241627409) = Fin (7036874432885677 / 281474976710656)"
proof -
  have b: "binade (54976256158806024 / 2199050241627409) = 4"
    by (rule binade_eqI) (simp_all add: power_int_minus_divide)
  have r: "rhe (54976256158806024 / 2199050241627409 / 2 powi (4 - 52)) = 7036874432885677"
    by (rule rhe_eqI) (simp_all add: power_int_minus_divide)
  show ?thesis
    using rnd_eqI [OF b r] by (simp add: power_int_minus_divide)
qed

lemma rnd_val_49: "rnd (27488492986740584 / 1099538613851409) = Fin (3518440746774653 / 140737488355328)"
proof -
  have b: "binade (27488492986740584 / 1099538613851409) = 4"
    by (rule binade_eqI) (simp_all add: power_int_minus_divide)
  have r: "rhe (27488492986740584 / 1099538613851409 / 2 powi (4 - 52)) = 7036881493549306"
    by (rule rhe_eqI) (simp_all add: power_int_minus_divide)
  show ?thesis
    using rnd_eqI [OF b r] by (simp add: power_int_minus_divide)
qed

lemma rnd_val_50: "rnd (3603089972278828251 / 144115188075855872) = Fin (3518642551053543 / 140737488355328)"
proof -
  have b: "binade (3603089972278828251 / 144115188075855872) = 4"
    by (rule binade_eqI) (simp_all add: power_int_minus_divide)
  have r: "rhe (3603089972278828251 / 144115188075855872 / 2 powi (4 - 52)) = 7037285102107086"
    by (rule rhe_eqI) (simp_all add: power_int_minus_divide)
  show ?thesis
    using rnd_eqI [OF b r] by (simp add: power_int_minus_divide)
qed

lemma rnd_val_51: "rnd (28825501122659650569 / 1152921504606846976) = Fin (7037475860024329 / 281474976710656)"
proof -
  have b: "binade (28825501122659650569 / 1152921504606846976) = 4"
    by (rule binade_eqI) (simp_all add: power_int_minus_divide)
  have r: "rhe (28825501122659650569 / 1152921504606846976 / 2 powi (4 - 52)) = 7037475860024329"
    by (rule rhe_eqI) (simp_all add: power_int_minus_divide)
  show ?thesis
    using rnd_eqI [OF b r] by (simp add: power_int_minus_divide)
qed

lemma rnd_val_52: "rnd (115305607708507567641 / 4611686018427387904) = Fin (1759423945747491 / 70368744177664)"
proof -
  have b: "binade (115305607708507567641 / 4611686018427387904) = 4"
    by (rule binade_eqI) (simp_all add: power_int_minus_divide)
  have r: "rhe (115305607708507567641 / 4611686018427387904 / 2 powi (4 - 52)) = 7037695782989964"
    by (rule rhe_eqI) (simp_all add: power_int_minus_divide)
  show ?thesis
    using rnd_eqI [OF b r] by (simp add: power_int_minus_divide)
qed

lemma rnd_val_53: "rnd (14413982299908946203 / 576460752303423488) = Fin (7038077294877415 / 281474976710656)"
proof -
  have b: "binade (14413982299908946203 / 576460752303423488) = 4"
    by (rule binade_eqI) (simp_all add: power_int_minus_divide)
  have r: "rhe (14413982299908946203 / 576460752303423488 / 2 powi (4 - 52)) = 7038077294877415"
    by (rule rhe_eqI) (simp_all add: power_int_minus_divide)
  show ?thesis
    using rnd_eqI [OF b r] by (simp add: power_int_minus_divide)
qed

lemma rnd_val_54: "rnd (1815513599783731 / 70368744177664) = Fin (1815513599783731 / 70368744177664)"
proof -
  have b: "binade (1815513599783731 / 70368744177664) = 4"
    by (rule binade_eqI) (simp_all add: power_int_minus_divide)
  have r: "rhe (1815513599783731 / 70368744177664 / 2 powi (4 - 52)) = 7262054399134924"
    by (rule rhe_eqI) (simp_all add: power_int_minus_divide)
  show ?thesis
    using rnd_eqI [OF b r] by (simp add: power_int_minus_divide)
qed

lemma rnd_val_55: "rnd (56735496233987152 / 2199050241627409) = Fin (7262054399134925 / 281474976710656)"
proof -
  have b: "binade (56735496233987152 / 2199050241627409) = 4"
    by (rule binade_eqI) (simp_all add: power_int_minus_divide)
  have r: "rhe (56735496233987152 / 2199050241627409 / 2 powi (4 - 52)) = 7262054399134925"
    by (rule rhe_eqI) (simp_all add: power_int_minus_divide)
  show ?thesis
    using rnd_eqI [OF b r] by (simp add: power_int_minus_divide)
qed

lemma rnd_val_56: "rnd (129 / 5) = Fin (7262054399134925 / 281474976710656)"
proof -
  have b: "binade (129 / 5) = 4"
    by (rule binade_eqI) (simp_all add: power_int_minus_divide)
  have r: "rhe (129 / 5 / 2 powi (4 - 52)) = 7262054399134925"
    by (rule rhe_eqI) (simp_all add: power_int_minus_divide)
  show ?thesis
    using rnd_eqI [OF b r] by (simp add: power_int_minus_divide)
qed

lemma rnd_val_57: "rnd (468811188795401821 / 18014398509481984) = Fin (7325174824928153 / 281474976710656)"
proof -
  have b: "binade (468811188795401821 / 18014398509481984) = 4"
    by (rule binade_eqI) (simp_all add: power_int_minus_divide)
  have r: "rhe (468811188795401821 / 18014398509481984 / 2 powi (4 - 52)) = 7325174824928153"
    by (rule rhe_eqI) (simp_all add: power_int_minus_divide)
  show ?thesis
    using rnd_eqI [OF b r] by (simp add: power_int_minus_divide)
qed

lemma rnd_val_58: "rnd (53 / 2) = Fin (53 / 2)"
proof -
  have b: "binade (53 / 2) = 4"
    by (rule binade_eqI) (simp_all add: power_int_minus_divide)
  have r: "rhe (53 / 2 / 2 powi (4 - 52)) = 7459086882832384"
    by (rule rhe_eqI) (simp_all add: power_int_minus_divide)
  show ?thesis
    using rnd_eqI [OF b r] by (simp add: power_int_minus_divide)
qed

lemma rnd_val_59: "rnd (33261938622708735 / 1125899906842624) = Fin (32482361936239 / 1099511627776)"
proof -
  have b: "binade (33261938622708735 / 1125899906842624) = 4"
    by (rule binade_eqI) (simp_all add: power_int_minus_divide)
  have r: "rhe (33261938622708735 / 1125899906842624 / 2 powi (4 - 52)) = 8315484655677184"
    by (rule rhe_eqI) (simp_all add: power_int_minus_divide)
  show ?thesis
    using rnd_eqI [OF b r] by (simp add: power_int_minus_divide)
qed

lemma rnd_val_60: "rnd (69179926178352303771 / 2305843009213693952) = Fin (2111203801829599 / 70368744177664)"
proof -
  have b: "binade (69179926178352303771 / 2305843009213693952) = 4"
    by (rule binade_eqI) (simp_all add: power_int_minus_divide)
  have r: "rhe (69179926178352303771 / 2305843009213693952 / 2 powi (4 - 52)) = 8444815207318396"
    by (rule rhe_eqI) (simp_all add: power_int_minus_divide)
  show ?thesis
    using rnd_eqI [OF b r] by (simp add: power_int_minus_divide)
qed

lemma rnd_val_61: "rnd (- (11624916538150091 / 281474976710656)) = Fin (- (2906229134537523 / 70368744177664))"
proof -
  have b: "binade (- (11624916538150091 / 281474976710656)) = 5"
    by (rule binade_eqI) (simp_all add: power_int_minus_divide)
  have r: "rhe (- (11624916538150091 / 281474976710656) / 2 powi (5 - 52)) = - 5812458269075046"
    by (rule rhe_tie_down) (simp_all add: power_int_minus_divide)
  show ?thesis
    using rnd_eqI [OF b r] by (simp add: power_int_minus_divide)
qed

lemma rnd_val_62: "rnd (- (2906229134537523 / 70368744177664)) = Fin (- (2906229134537523 / 70368744177664))"
proof -
  have b: "binade (- (2906229134537523 / 70368744177664)) = 5"
    by (rule binade_eqI) (simp_all add: power_int_minus_divide)
  have r: "rhe (- (2906229134537523 / 70368744177664) / 2 powi (5 - 52)) = - 5812458269075046"
    by (rule rhe_eqI) (simp_all add: power_int_minus_divide)
  show ?thesis
    using rnd_eqI [OF b r] by (simp add: power_int_minus_divide)
qed

lemma rnd_val_63: "rnd (671 / 10) = Fin (2360871367160627 / 35184372088832)"
proof -
  have b: "binade (671 / 10) = 6"
    by (rule binade_eqI) (simp_all add: power_int_minus_divide)
  have r: "rhe (671 / 10 / 2 powi (6 - 52)) = 4721742734321254"
    by (rule rhe_eqI) (simp_all add: power_int_minus_divide)
  show ?thesis
    using rnd_eqI [OF b r] by (simp add: power_int_minus_divide)
qed

lemma rnd_val_64: "rnd (298) = Fin (298)"
proof -
  have b: "binade (298) = 8"
    by (rule binade_eqI) (simp_all add: power_int_minus_divide)
  have r: "rhe (298 / 2 powi (8 - 52)) = 5242471441235968"
    by (rule rhe_eqI) (simp_all add: power_int_minus_divide)
  show ?thesis
    using rnd_eqI [OF b r] by (simp add: power_int_minus_divide)
qed

lemma rnd_val_65: "rnd (83880144502033417 / 281474976710656) = Fin (5242509031377089 / 17592186044416)"
proof -
  have b: "binade (83880144502033417 / 281474976710656) = 8"
    by (rule binade_eqI) (simp_all add: power_int_minus_divide)
  have r: "rhe (83880144502033417 / 281474976710656 / 2 powi (8 - 52)) = 5242509031377089"
    by (rule rhe_eqI) (simp_all add: power_int_minus_divide)
  show ?thesis
    using rnd_eqI [OF b r] by (simp add: power_int_minus_divide)
qed

lemma rnd_val_66: "rnd (303) = Fin (303)"
proof -
  have b: "binade (303) = 8"
    by (rule binade_eqI) (simp_all add: power_int_minus_divide)
  have r: "rhe (303 / 2 powi (8 - 52)) = 5330432371458048"
    by (rule rhe_eqI) (simp_all add: power_int_minus_divide)
  show ?thesis
    using rnd_eqI [OF b r] by (simp add: power_int_minus_divide)
qed

lemma rnd_val_67: "rnd (1053842312804696025 / 2251799813685248) = Fin (468)"
proof -
  have b: "binade (1053842312804696025 / 2251799813685248) = 8"
    by (rule binade_eqI) (simp_all add: power_int_minus_divide)
  have r: "rhe (1053842312804696025 / 2251799813685248 / 2 powi (8 - 52)) = 8233143068786688"
    by (rule rhe_eqI) (simp_all add: power_int_minus_divide)
  show ?thesis
    using rnd_eqI [OF b r] by (simp add: power_int_minus_divide)
qed

lemma rnd_val_68: "rnd (517273451951761 / 1099511627776) = Fin (517273451951761 / 1099511627776)"
proof -
  have b: "binade (517273451951761 / 1099511627776) = 8"
    by (rule binade_eqI) (simp_all add: power_int_minus_divide)
  have r: "rhe (517273451951761 / 1099511627776 / 2 powi (8 - 52)) = 8276375231228176"
    by (rule rhe_eqI) (simp_all add: power_int_minus_divide)
  show ?thesis
    using rnd_eqI [OF b r] by (simp add: power_int_minus_divide)
qed

lemma rnd_val_69: "rnd (576453655028352348193 / 1152921504606846976) = Fin (8795984726384771 / 17592186044416)"
proof -
  have b: "binade (576453655028352348193 / 1152921504606846976) = 8"
    by (rule binade_eqI) (simp_all add: power_int_minus_divide)
  have r: "rhe (576453655028352348193 / 1152921504606846976 / 2 powi (8 - 52)) = 8795984726384771"
    by (rule rhe_eqI) (simp_all add: power_int_minus_divide)
  show ?thesis
    using rnd_eqI [OF b r] by (simp add: power_int_minus_divide)
qed

lemma rnd_val_70: "rnd (500) = Fin (500)"
proof -
  have b: "binade (500) = 8"
    by (rule binade_eqI) (simp_all add: power_int_minus_divide)
  have r: "rhe (500 / 2 powi (8 - 52)) = 8796093022208000"
    by (rule rhe_eqI) (simp_all add: power_int_minus_divide)
  show ?thesis
    using rnd_eqI [OF b r] by (simp add: power_int_minus_divide)
qed

lemma rnd_val_71: "rnd (- (160000 / 209)) = Fin (- (6733851117479809 / 8796093022208))"
proof -
  have b: "binade (- (160000 / 209)) = 9"
    by (rule binade_eqI) (simp_all add: power_int_minus_divide)
  have r: "rhe (- (160000 / 209) / 2 powi (9 - 52)) = - 6733851117479809"
    by (rule rhe_eqI) (simp_all add: power_int_minus_divide)
  show ?thesis
    using rnd_eqI [OF b r] by (simp add: power_int_minus_divide)
qed

lemma rnd_val_72: "rnd (1200) = Fin (1200)"
proof -
  have b: "binade (1200) = 10"
    by (rule binade_eqI) (simp_all add: power_int_minus_divide)
  have r: "rhe (1200 / 2 powi (10 - 52)) = 5277655813324800"
    by (rule rhe_eqI) (simp_all add: power_int_minus_divide)
  show ?thesis
    using rnd_eqI [OF b r] by (simp add: power_int_minus_divide)
qed

lemma rnd_val_73: "rnd (2000) = Fin (2000)"
proof -
  have b: "binade (2000) = 10"
    by (rule binade_eqI) (simp_all add: power_int_minus_divide)
  have r: "rhe (2000 / 2 powi (10 - 52)) = 8796093022208000"
    by (rule rhe_eqI) (simp_all add: power_int_minus_divide)
  show ?thesis
    using rnd_eqI [OF b r] by (simp add: power_int_minus_divide)
qed

lemma rnd_val_74: "rnd (576467826541175516441 / 288230376151711744) = Fin (2199050241627409 / 1099511627776)"
proof -
  have b: "binade (576467826541175516441 / 288230376151711744) = 10"
    by (rule binade_eqI) (simp_all add: power_int_minus_divide)
  have r: "rhe (576467826541175516441 / 288230376151711744 / 2 powi (10 - 52)) = 8796200966509636"
    by (rule rhe_eqI) (simp_all add: power_int_minus_divide)
  show ?thesis
    using rnd_eqI [OF b r] by (simp add: power_int_minus_divide)
qed

lemma rnd_val_75: "rnd (288237450389463772441 / 144115188075855872) = Fin (1099538613851409 / 549755813888)"
proof -
  have b: "binade (288237450389463772441 / 144115188075855872) = 10"
    by (rule binade_eqI) (simp_all add: power_int_minus_divide)
  have r: "rhe (288237450389463772441 / 144115188075855872 / 2 powi (10 - 52)) = 8796308910811272"
    by (rule rhe_eqI) (simp_all add: power_int_minus_divide)
  show ?thesis
    using rnd_eqI [OF b r] by (simp add: power_int_minus_divide)
qed

lemma rnd_val_76: "rnd (33669255587399045 / 8796093022208) = Fin (8417313896849761 / 2199023255552)"
proof -
  have b: "binade (33669255587399045 / 8796093022208) = 11"
    by (rule binade_eqI) (simp_all add: power_int_minus_divide)
  have r: "rhe (33669255587399045 / 8796093022208 / 2 powi (11 - 52)) = 8417313896849761"
    by (rule rhe_eqI) (simp_all add: power_int_minus_divide)
  show ?thesis
    using rnd_eqI [OF b r] by (simp add: power_int_minus_divide)
qed

lemma rnd_val_77: "rnd (- (94125232212043371625 / 18014398509481984)) = Fin (- 5225)"
proof -
  have b: "binade (- (94125232212043371625 / 18014398509481984)) = 12"
    by (rule binade_eqI) (simp_all add: power_int_minus_divide)
  have r: "rhe (- (94125232212043371625 / 18014398509481984) / 2 powi (12 - 52)) = - 5744948255129600"
    by (rule rhe_eqI) (simp_all add: power_int_minus_divide)
  show ?thesis
    using rnd_eqI [OF b r] by (simp add: power_int_minus_divide)
qed

lemma rnd_val_78: "rnd (94125232212043371625 / 18014398509481984) = Fin (5225)"
proof -
  have b: "binade (94125232212043371625 / 18014398509481984) = 12"
    by (rule binade_eqI) (simp_all add: power_int_minus_divide)
  have r: "rhe (94125232212043371625 / 18014398509481984 / 2 powi (12 - 52)) = 5744948255129600"
    by (rule rhe_eqI) (simp_all add: power_int_minus_divide)
  show ?thesis
    using rnd_eqI [OF b r] by (simp add: power_int_minus_divide)
qed

lemma rnd_val_79: "rnd (50000) = Fin (50000)"
proof -
  have b: "binade (50000) = 15"
    by (rule binade_eqI) (simp_all add: power_int_minus_divide)
  have r: "rhe (50000 / 2 powi (15 - 52)) = 6871947673600000"
    by (rule rhe_eqI) (simp_all add: power_int_minus_divide)
  show ?thesis
    using rnd_eqI [OF b r] by (simp add: power_int_minus_divide)
qed

lemma rnd_val_80: "rnd (439804651425387125 / 8796093022208) = Fin (3435973839260837 / 68719476736)"
proof -
  have b: "binade (439804651425387125 / 8796093022208) = 15"
    by (rule binade_eqI) (simp_all add: power_int_minus_divide)
  have r: "rhe (439804651425387125 / 8796093022208 / 2 powi (15 - 52)) = 6871947678521674"
    by (rule rhe_eqI) (simp_all add: power_int_minus_divide)
  show ?thesis
    using rnd_eqI [OF b r] by (simp add: power_int_minus_divide)
qed

lemma rnd_val_81: "rnd (225182744903922049565 / 4503599627370496) = Fin (6872032010007387 / 137438953472)"
proof -
  have b: "binade (225182744903922049565 / 4503599627370496) = 15"
    by (rule binade_eqI) (simp_all add: power_int_minus_divide)
  have r: "rhe (225182744903922049565 / 4503599627370496 / 2 powi (15 - 52)) = 6872032010007387"
    by (rule rhe_eqI) (simp_all add: power_int_minus_divide)
  show ?thesis
    using rnd_eqI [OF b r] by (simp add: power_int_minus_divide)
qed

lemma rnd_val_82: "rnd (450365490452938937549 / 9007199254740992) = Fin (6872032019850753 / 137438953472)"
proof -
  have b: "binade (450365490452938937549 / 9007199254740992) = 15"
    by (rule binade_eqI) (simp_all add: power_int_minus_divide)
  have r: "rhe (450365490452938937549 / 9007199254740992 / 2 powi (15 - 52)) = 6872032019850753"
    by (rule rhe_eqI) (simp_all add: power_int_minus_divide)
  show ?thesis
    using rnd_eqI [OF b r] by (simp add: power_int_minus_divide)
qed

lemma rnd_val_83: "rnd (225185734547378863797 / 4503599627370496) = Fin (3436061623342573 / 68719476736)"
proof -
  have b: "binade (225185734547378863797 / 4503599627370496) = 15"
    by (rule binade_eqI) (simp_all add: power_int_minus_divide)
  have r: "rhe (225185734547378863797 / 4503599627370496 / 2 powi (15 - 52)) = 6872123246685146"
    by (rule rhe_eqI) (simp_all add: power_int_minus_divide)
  show ?thesis
    using rnd_eqI [OF b r] by (simp add: power_int_minus_divide)
qed

lemma rnd_val_84: "rnd (907756799891865625 / 17592186044416) = Fin (51600)"
proof -
  have b: "binade (907756799891865625 / 17592186044416) = 15"
    by (rule binade_eqI) (simp_all add: power_int_minus_divide)
  have r: "rhe (907756799891865625 / 17592186044416 / 2 powi (15 - 52)) = 7091849999155200"
    by (rule rhe_eqI) (simp_all add: power_int_minus_divide)
  show ?thesis
    using rnd_eqI [OF b r] by (simp add: power_int_minus_divide)
qed

lemma rnd_val_85: "rnd (232388592574411380065 / 4503599627370496) = Fin (3545968514624197 / 68719476736)"
proof -
  have b: "binade (232388592574411380065 / 4503599627370496) = 15"
    by (rule binade_eqI) (simp_all add: power_int_minus_divide)
  have r: "rhe (232388592574411380065 / 4503599627370496 / 2 powi (15 - 52)) = 7091937029248394"
    by (rule rhe_eqI) (simp_all add: power_int_minus_divide)
  show ?thesis
    using rnd_eqI [OF b r] by (simp add: power_int_minus_divide)
qed

lemma rnd_val_86: "rnd (- (470626161060216858125 / 2251799813685248)) = Fin (- 209000)"
proof -
  have b: "binade (- (470626161060216858125 / 2251799813685248)) = 17"
    by (rule binade_eqI) (simp_all add: power_int_minus_divide)
  have r: "rhe (- (470626161060216858125 / 2251799813685248) / 2 powi (17 - 52)) = - 7181185318912000"
    by (rule rhe_eqI) (simp_all add: power_int_minus_divide)
  show ?thesis
    using rnd_eqI [OF b r] by (simp add: power_int_minus_divide)
qed

lemma rnd_val_87: "rnd (470626161060216858125 / 2251799813685248) = Fin (209000)"
proof -
  have b: "binade (470626161060216858125 / 2251799813685248) = 17"
    by (rule binade_eqI) (simp_all add: power_int_minus_divide)
  have r: "rhe (470626161060216858125 / 2251799813685248 / 2 powi (17 - 52)) = 7181185318912000"
    by (rule rhe_eqI) (simp_all add: power_int_minus_divide)
  show ?thesis
    using rnd_eqI [OF b r] by (simp add: power_int_minus_divide)
qed

lemma rnd_val_88: "rnd (237174238471 / 1048576) = Fin (237174238471 / 1048576)"
proof -
  have b: "binade (237174238471 / 1048576) = 17"
    by (rule binade_eqI) (simp_all add: power_int_minus_divide)
  have r: "rhe (237174238471 / 1048576 / 2 powi (17 - 52)) = 7771725446217728"
    by (rule rhe_eqI) (simp_all add: power_int_minus_divide)
  show ?thesis
    using rnd_eqI [OF b r] by (simp add: power_int_minus_divide)
qed

lemma rnd_val_89: "rnd (234000) = Fin (234000)"
proof -
  have b: "binade (234000) = 17"
    by (rule binade_eqI) (simp_all add: power_int_minus_divide)
  have r: "rhe (234000 / 2 powi (17 - 52)) = 8040178778112000"
    by (rule rhe_eqI) (simp_all add: power_int_minus_divide)
  show ?thesis
    using rnd_eqI [OF b r] by (simp add: power_int_minus_divide)
qed

lemma rnd_val_90: "rnd (1000000) = Fin (1000000)"
proof -
  have b: "binade (1000000) = 19"
    by (rule binade_eqI) (simp_all add: power_int_minus_divide)
  have r: "rhe (1000000 / 2 powi (19 - 52)) = 8589934592000000"
    by (rule rhe_eqI) (simp_all add: power_int_minus_divide)
  show ?thesis
    using rnd_eqI [OF b r] by (simp add: power_int_minus_divide)
qed

lemma rnd_val_91: "rnd (4000000) = Fin (4000000)"
proof -
  have b: "binade (4000000) = 21"
    by (rule binade_eqI) (simp_all add: power_int_minus_divide)
  have r: "rhe (4000000 / 2 powi (21 - 52)) = 8589934592000000"
    by (rule rhe_eqI) (simp_all add: power_int_minus_divide)
  show ?thesis
    using rnd_eqI [OF b r] by (simp add: power_int_minus_divide)
qed

lemma rnd_val_92: "rnd (4180000) = Fin (4180000)"
proof -
  have b: "binade (4180000) = 21"
    by (rule binade_eqI) (simp_all add: power_int_minus_divide)
  have r: "rhe (4180000 / 2 powi (21 - 52)) = 8976481648640000"
    by (rule rhe_eqI) (simp_all add: power_int_minus_divide)
  show ?thesis
    using rnd_eqI [OF b r] by (simp add: power_int_minus_divide)
qed

lemma rnd_val_93: "rnd (542742065) = Fin (542742065)"
proof -
  have b: "binade (542742065) = 29"
    by (rule binade_eqI) (simp_all add: power_int_minus_divide)
  have r: "rhe (542742065 / 2 powi (29 - 52)) = 4552850428395520"
    by (rule rhe_eqI) (simp_all add: power_int_minus_divide)
  show ?thesis
    using rnd_eqI [OF b r] by (simp add: power_int_minus_divide)
qed

lemma rnd_val_94: "rnd (7886150416) = Fin (7886150416)"
proof -
  have b: "binade (7886150416) = 32"
    by (rule binade_eqI) (simp_all add: power_int_minus_divide)
  have r: "rhe (7886150416 / 2 powi (32 - 52)) = 8269228058607616"
    by (rule rhe_eqI) (simp_all add: power_int_minus_divide)
  show ?thesis
    using rnd_eqI [OF b r] by (simp add: power_int_minus_divide)
qed

lemma rnd_val_95: "rnd (755364811103470742735843194230249055927534644475937258165994241 / 95780971304118053647396689196894323976171195136475136) = Fin (8269465232846087 / 1048576)"
proof -
  have b: "binade (755364811103470742735843194230249055927534644475937258165994241 / 95780971304118053647396689196894323976171195136475136) = 32"
    by (rule binade_eqI) (simp_all add: power_int_minus_divide)
  have r: "rhe (755364811103470742735843194230249055927534644475937258165994241 / 95780971304118053647396689196894323976171195136475136 / 2 powi (32 - 52)) = 8269465232846087"
    by (rule rhe_eqI) (simp_all add: power_int_minus_divide)
  show ?thesis
    using rnd_eqI [OF b r] by (simp add: power_int_minus_divide)
qed

lemma rnd_val_96: "rnd (8428892481) = Fin (8428892481)"
proof -
  have b: "binade (8428892481) = 32"
    by (rule binade_eqI) (simp_all add: power_int_minus_divide)
  have r: "rhe (8428892481 / 2 powi (32 - 52)) = 8838334362157056"
    by (rule rhe_eqI) (simp_all add: power_int_minus_divide)
  show ?thesis
    using rnd_eqI [OF b r] by (simp add: power_int_minus_divide)
qed

lemma rnd_val_97: "rnd (100000000000000000000000000000000000000000000000000000000000000000000000000000000) = Fin (100000000000000000026609864708367276537402401181200809098131977453489758916313088)"
proof -
  have b: "binade (100000000000000000000000000000000000000000000000000000000000000000000000000000000) = 265"
    by (rule binade_eqI) (simp_all add: power_int_minus_divide)
  have r: "rhe (100000000000000000000000000000000000000000000000000000000000000000000000000000000 / 2 powi (265 - 52)) = 7596454196607839"
    by (rule rhe_eqI) (simp_all add: power_int_minus_divide)
  show ?thesis
    using rnd_eqI [OF b r] by (simp add: power_int_minus_divide)
qed

lemma rnd_val_98: "rnd (100000000000000000026609864708367276537402401181200809098131977453489758916313361) = Fin (100000000000000000026609864708367276537402401181200809098131977453489758916313088)"
proof -
  have b: "binade (100000000000000000026609864708367276537402401181200809098131977453489758916313361) = 265"
    by (rule binade_eqI) (simp_all add: power_int_minus_divide)
  have r: "rhe (100000000000000000026609864708367276537402401181200809098131977453489758916313361 / 2 powi (265 - 52)) = 7596454196607839"
    by (rule rhe_eqI) (simp_all add: power_int_minus_divide)
  show ?thesis
    using rnd_eqI [OF b r] by (simp add: power_int_minus_divide)
qed

lemmas vals = rnd_val_0 rnd_val_1 rnd_val_2 rnd_val_3 rnd_val_4 rnd_val_5 rnd_val_6 rnd_val_7
  rnd_val_8 rnd_val_9 rnd_val_10 rnd_val_11 rnd_val_12 rnd_val_13 rnd_val_14 rnd_val_15
  rnd_val_16 rnd_val_17 rnd_val_18 rnd_val_19 rnd_val_20 rnd_val_21 rnd_val_22 rnd_val_23
  rnd_val_24 rnd_val_25 rnd_val_26 rnd_val_27 rnd_val_28 rnd_val_29 rnd_val_30 rnd_val_31
  rnd_val_32 rnd_val_33 rnd_val_34 rnd_val_35 rnd_val_36 rnd_val_37 rnd_val_38 rnd_val_39
  rnd_val_40 rnd_val_41 rnd_val_42 rnd_val_43 rnd_val_44 rnd_val_45 rnd_val_46 rnd_val_47
  rnd_val_48 rnd_val_49 rnd_val_50 rnd_val_51 rnd_val_52 rnd_val_53 rnd_val_54 rnd_val_55
  rnd_val_56 rnd_val_57 rnd_val_58 rnd_val_59 rnd_val_60 rnd_val_61 rnd_val_62 rnd_val_63
  rnd_val_64 rnd_val_65 rnd_val_66 rnd_val_67 rnd_val_68 rnd_val_69 rnd_val_70 rnd_val_71
  rnd_val_72 rnd_val_73 rnd_val_74 rnd_val_75 rnd_val_76 rnd_val_77 rnd_val_78 rnd_val_79
  rnd_val_80 rnd_val_81 rnd_val_82 rnd_val_83 rnd_val_84 rnd_val_85 rnd_val_86 rnd_val_87
  rnd_val_88 rnd_val_89 rnd_val_90 rnd_val_91 rnd_val_92 rnd_val_93 rnd_val_94 rnd_val_95
  rnd_val_96 rnd_val_97 rnd_val_98

section \<open>Properties of the program\<close>

subsection \<open>The default objects\<close>

lemma SolarPanel_default_value: "SolarPanel_default libm_cr = Inr Panel_default"
  by (simp add: SolarPanel_default_def SolarPanel_init_def then_do_def libm_cr_def math_pi_def
      Panel_default_def power_divide vals)


subsection \<open>The main loop without iterations\<close>

text \<open>
  C8. With \<open>steps = 0\<close> the loop body never runs: the three series are empty and the
  panel and the fluid, with their three temperatures, are the initial ones.
\<close>

theorem main_loop_zero_steps:
  assumes "steps g = 0"
  shows "main_loop lm g p w =
     Inr \<lparr>Panel = p, Water = w, tank_outlet_temps = [], panel_outlet_temps = [],
          pipe_temps = []\<rparr>"
  using assms by (simp add: main_loop_def)


theorem main_loop_zero_steps_witness:
  "steps (globals_default\<lparr>steps := 0\<rparr>) = 0 \<and>
   main_loop libm_cr (globals_default\<lparr>steps := 0\<rparr>) Panel_default Water_default =
     Inr \<lparr>Panel = Panel_default, Water = Water_default, tank_outlet_temps = [],
          panel_outlet_temps = [], pipe_temps = []\<rparr>"
proof -
  have h: "steps (globals_default\<lparr>steps := 0\<rparr>) = 0"
    by simp
  show ?thesis
    by (rule conjI [OF h main_loop_zero_steps [OF h]])
qed

subsection \<open>Construction of a Fluid\<close>





subsection \<open>The panel update\<close>










text \<open>
  So does a panel at \<open>T = 1e80\<close>: the fourth power of \<open>T + 273\<close> overflows and the
  call raises \<open>OverflowError\<close>.
\<close>

lemma SolarPanel_UpdateTemp_overflow:
  "SolarPanel_UpdateTemp libm_cr globals_default (Fin 0) (Panel_default\<lparr>T := rnd (10 ^ 80)\<rparr>) =
     (Inl OverflowError, Panel_default\<lparr>T := rnd (10 ^ 80)\<rparr>)"
proof -
  have "rnd ((100000000000000000026609864708367276537402401181200809098131977453489758916313088) ^ 4) = PInf"
    by (rule rnd_overflow) simp
  then show ?thesis
    by (simp add: SolarPanel_UpdateTemp_def UpdateTemp_value_def then_do_def get_solar_rad_def
        Kelvin_def fsub_def libm_cr_def globals_default_def Panel_default_def Let_def power_divide vals)
qed

subsection \<open>The fluid update\<close>





lemma Fluid_UpdateTemp_example:
  "Fluid_UpdateTemp libm_ref (globals_default\<lparr>dt := Fin 2\<rparr>) Water_default (rnd 26.5) =
     (Inr (Fin (7325174824928153 / 281474976710656), Fin (3518440746774653 / 140737488355328)),
      Water_default\<lparr>T_panel_out := Fin (7325174824928153 / 281474976710656), T_tank_out := Fin (3518440746774653 / 140737488355328)\<rparr>)"
  by (simp add: Fluid_UpdateTemp_def then_do_def fsub_def libm_ref_def libm_cr_def
      globals_default_def Water_default_def Let_def power_divide vals)



subsection \<open>The iterations of the main loop\<close>

lemma run_range_snoc:
  "run_range lm g (ns @ [i]) s =
     (case run_range lm g ns s of Inl e \<Rightarrow> Inl e | Inr s' \<Rightarrow> loop_body lm g s' i)"
  by (induction ns arbitrary: s) (auto split: sum.splits)

lemma loop_body_Inr:
  "loop_body lm g s i = Inr s' \<longleftrightarrow>
     (\<exists>fi pt p' po to w'.
        float_of_int (int i) = Inr fi \<and>
        SolarPanel_UpdateTemp lm g (fmul (dt g) fi) (Panel s) = (Inr pt, p') \<and>
        Fluid_UpdateTemp lm g (Water s) pt = (Inr (po, to), w') \<and>
        s' = \<lparr>Panel = p', Water = w',
              tank_outlet_temps = tank_outlet_temps s @ [to],
              panel_outlet_temps = panel_outlet_temps s @ [po],
              pipe_temps = pipe_temps s @ [pt]\<rparr>)"
proof (cases "float_of_int (int i)")
  case (Inl e)
  then show ?thesis by (simp add: loop_body_def then_do_def)
next
  case (Inr fi)
  obtain r1 p1 where u1: "SolarPanel_UpdateTemp lm g (fmul (dt g) fi) (Panel s) = (r1, p1)"
    by (cases "SolarPanel_UpdateTemp lm g (fmul (dt g) fi) (Panel s)")
  show ?thesis
  proof (cases r1)
    case (Inl e)
    then show ?thesis using Inr u1 by (simp add: loop_body_def then_do_def)
  next
    case pt: (Inr pt)
    obtain r2 w2 where u2: "Fluid_UpdateTemp lm g (Water s) pt = (r2, w2)"
      by (cases "Fluid_UpdateTemp lm g (Water s) pt")
    show ?thesis
    proof (cases r2)
      case (Inl e)
      then show ?thesis using Inr u1 pt u2 by (simp add: loop_body_def then_do_def)
    next
      case r: (Inr r)
      obtain po to where "r = (po, to)" by (cases r)
      then show ?thesis using Inr u1 pt u2 r by (auto simp: loop_body_def then_do_def)
    qed
  qed
qed

lemma loop_body_Inl:
  "loop_body lm g s i = Inl e \<longleftrightarrow>
     float_of_int (int i) = Inl e \<or>
     (\<exists>fi. float_of_int (int i) = Inr fi \<and>
        (fst (SolarPanel_UpdateTemp lm g (fmul (dt g) fi) (Panel s)) = Inl e \<or>
         (\<exists>pt. fst (SolarPanel_UpdateTemp lm g (fmul (dt g) fi) (Panel s)) = Inr pt \<and>
            fst (Fluid_UpdateTemp lm g (Water s) pt) = Inl e)))"
proof (cases "float_of_int (int i)")
  case (Inl e')
  then show ?thesis by (simp add: loop_body_def then_do_def)
next
  case (Inr fi)
  obtain r1 p1 where u1: "SolarPanel_UpdateTemp lm g (fmul (dt g) fi) (Panel s) = (r1, p1)"
    by (cases "SolarPanel_UpdateTemp lm g (fmul (dt g) fi) (Panel s)")
  show ?thesis
  proof (cases r1)
    case (Inl e')
    then show ?thesis using Inr u1 by (simp add: loop_body_def then_do_def)
  next
    case pt: (Inr pt)
    obtain r2 w2 where u2: "Fluid_UpdateTemp lm g (Water s) pt = (r2, w2)"
      by (cases "Fluid_UpdateTemp lm g (Water s) pt")
    show ?thesis
    proof (cases r2)
      case (Inl e')
      then show ?thesis using Inr u1 pt u2 by (simp add: loop_body_def then_do_def)
    next
      case r: (Inr r)
      obtain po to where "r = (po, to)" by (cases r)
      then show ?thesis using Inr u1 pt u2 r by (simp add: loop_body_def then_do_def)
    qed
  qed
qed

lemma run_range_length:
  assumes "run_range lm g [0..<n] s = Inr s'"
  shows "length (pipe_temps s') = length (pipe_temps s) + n \<and>
         length (panel_outlet_temps s') = length (panel_outlet_temps s) + n \<and>
         length (tank_outlet_temps s') = length (tank_outlet_temps s) + n"
  using assms
proof (induction n arbitrary: s')
  case 0
  then show ?case by simp
next
  case (Suc n)
  from Suc.prems obtain sn where sn: "run_range lm g [0..<n] s = Inr sn"
      and body: "loop_body lm g sn n = Inr s'"
    by (auto simp: run_range_snoc split: sum.splits)
  from Suc.IH [OF sn] body show ?case
    by (auto simp: loop_body_Inr)
qed

lemma run_range_prefix:
  assumes "run_range lm g [0..<n] s = Inr s'" and "i \<le> n"
  shows "\<exists>si. run_range lm g [0..<i] s = Inr si \<and>
           prefix (pipe_temps si) (pipe_temps s') \<and>
           prefix (panel_outlet_temps si) (panel_outlet_temps s') \<and>
           prefix (tank_outlet_temps si) (tank_outlet_temps s')"
  using assms
proof (induction n arbitrary: s')
  case 0
  then show ?case by simp
next
  case (Suc n)
  from Suc.prems(1) obtain sn where sn: "run_range lm g [0..<n] s = Inr sn"
      and body: "loop_body lm g sn n = Inr s'"
    by (auto simp: run_range_snoc split: sum.splits)
  have ext: "prefix (pipe_temps sn) (pipe_temps s')"
      "prefix (panel_outlet_temps sn) (panel_outlet_temps s')"
      "prefix (tank_outlet_temps sn) (tank_outlet_temps s')"
    using body by (auto simp: loop_body_Inr)
  show ?case
  proof (cases "i = Suc n")
    case True
    then show ?thesis using Suc.prems(1) by auto
  next
    case False
    then have "i \<le> n" using Suc.prems(2) by simp
    from Suc.IH [OF sn this] obtain si where si: "run_range lm g [0..<i] s = Inr si"
      and pre: "prefix (pipe_temps si) (pipe_temps sn)"
         "prefix (panel_outlet_temps si) (panel_outlet_temps sn)"
         "prefix (tank_outlet_temps si) (tank_outlet_temps sn)"
      by blast
    show ?thesis
      using si prefix_order.trans [OF pre(1) ext(1)] prefix_order.trans [OF pre(2) ext(2)]
        prefix_order.trans [OF pre(3) ext(3)]
      by blast
  qed
qed

lemma run_range_first_raise:
  assumes "run_range lm g [0..<n] s = Inl e"
  shows "\<exists>i<n. \<exists>si. run_range lm g [0..<i] s = Inr si \<and> loop_body lm g si i = Inl e"
  using assms
proof (induction n)
  case 0
  then show ?case by simp
next
  case (Suc n)
  show ?case
  proof (cases "run_range lm g [0..<n] s")
    case (Inl e')
    with Suc.prems have "e' = e" by (simp add: run_range_snoc)
    with Inl Suc.IH obtain i si where "i < n" "run_range lm g [0..<i] s = Inr si"
      "loop_body lm g si i = Inl e"
      by blast
    then show ?thesis using less_Suc_eq by blast
  next
    case (Inr sn)
    with Suc.prems have "loop_body lm g sn n = Inl e" by (simp add: run_range_snoc)
    with Inr show ?thesis by blast
  qed
qed

lemma prefix_snoc_nth:
  assumes "prefix (xs @ [x]) ys"
  shows "ys ! length xs = x"
  using assms by (auto simp: prefix_def)


text \<open>
  C5 (as amended). For every configuration with \<open>steps \<ge> 0\<close> the driver executes the
  iterations in order and stops at the first one in which a call raises. If the run
  completes, it has executed exactly \<open>steps\<close> iterations and each of the three series
  has length \<open>steps\<close>: for every \<open>i < steps\<close>, the state \<open>si\<close> after the first \<open>i\<close>
  iterations exists; iteration \<open>i\<close> computes the elapsed time \<open>dt * i\<close>, calls the
  panel update on \<open>si\<close>, then the fluid update with the temperature \<open>pt\<close> that the
  panel update returned; the three results are the entries at index \<open>i\<close> of the
  series, and the two updated objects are the state from which iteration \<open>i + 1\<close>
  starts. If the run raises, it does so in an iteration \<open>i < steps\<close> that the first
  \<open>i\<close> iterations reached, in the conversion of \<open>i\<close>, in the panel update or in the
  fluid update.
\<close>

theorem main_loop_iterations:
  assumes "0 \<le> steps g"
  shows
  "(\<forall>s. main_loop lm g p w = Inr s \<longrightarrow>
      int (length (pipe_temps s)) = steps g \<and>
      int (length (panel_outlet_temps s)) = steps g \<and>
      int (length (tank_outlet_temps s)) = steps g \<and>
      (\<forall>i < nat (steps g). \<exists>si fi pt p' po to w' si'.
          run_range lm g [0..<i]
            \<lparr>Panel = p, Water = w, tank_outlet_temps = [], panel_outlet_temps = [],
             pipe_temps = []\<rparr> = Inr si \<and>
          float_of_int (int i) = Inr fi \<and>
          SolarPanel_UpdateTemp lm g (fmul (dt g) fi) (Panel si) = (Inr pt, p') \<and>
          Fluid_UpdateTemp lm g (Water si) pt = (Inr (po, to), w') \<and>
          pipe_temps s ! i = pt \<and> panel_outlet_temps s ! i = po \<and>
          tank_outlet_temps s ! i = to \<and>
          run_range lm g [0..<Suc i]
            \<lparr>Panel = p, Water = w, tank_outlet_temps = [], panel_outlet_temps = [],
             pipe_temps = []\<rparr> = Inr si' \<and>
          Panel si' = p' \<and> Water si' = w')) \<and>
   (\<forall>e. main_loop lm g p w = Inl e \<longrightarrow>
      (\<exists>i < nat (steps g). \<exists>si.
          run_range lm g [0..<i]
            \<lparr>Panel = p, Water = w, tank_outlet_temps = [], panel_outlet_temps = [],
             pipe_temps = []\<rparr> = Inr si \<and>
          (float_of_int (int i) = Inl e \<or>
           (\<exists>fi. float_of_int (int i) = Inr fi \<and>
              (fst (SolarPanel_UpdateTemp lm g (fmul (dt g) fi) (Panel si)) = Inl e \<or>
               (\<exists>pt. fst (SolarPanel_UpdateTemp lm g (fmul (dt g) fi) (Panel si)) = Inr pt \<and>
                  fst (Fluid_UpdateTemp lm g (Water si) pt) = Inl e))))))"
proof (intro conjI allI impI)
  define s0 where "s0 = \<lparr>Panel = p, Water = w, tank_outlet_temps = [], panel_outlet_temps = [],
                  pipe_temps = []\<rparr>"
  define n where "n = nat (steps g)"
  fix s
  assume "main_loop lm g p w = Inr s"
  then have s: "run_range lm g [0..<n] s0 = Inr s"
    by (simp add: main_loop_def s0_def n_def)
  have len: "length (pipe_temps s) = n" "length (panel_outlet_temps s) = n"
      "length (tank_outlet_temps s) = n"
    using run_range_length [OF s] by (simp_all add: s0_def)
  show "int (length (pipe_temps s)) = steps g" "int (length (panel_outlet_temps s)) = steps g"
    "int (length (tank_outlet_temps s)) = steps g"
    using len assms by (simp_all add: n_def)
  fix i
  assume "i < nat (steps g)"
  then have "Suc i \<le> n" by (simp add: n_def)
  from run_range_prefix [OF s this] obtain si' where si': "run_range lm g [0..<Suc i] s0 = Inr si'"
    and pre: "prefix (pipe_temps si') (pipe_temps s)"
       "prefix (panel_outlet_temps si') (panel_outlet_temps s)"
       "prefix (tank_outlet_temps si') (tank_outlet_temps s)"
    by blast
  from si' obtain si where si: "run_range lm g [0..<i] s0 = Inr si"
    and body: "loop_body lm g si i = Inr si'"
    by (auto simp: run_range_snoc split: sum.splits)
  from body obtain fi pt p' po to w' where
    fi: "float_of_int (int i) = Inr fi"
    and up: "SolarPanel_UpdateTemp lm g (fmul (dt g) fi) (Panel si) = (Inr pt, p')"
    and uw: "Fluid_UpdateTemp lm g (Water si) pt = (Inr (po, to), w')"
    and eq: "si' = \<lparr>Panel = p', Water = w',
            tank_outlet_temps = tank_outlet_temps si @ [to],
            panel_outlet_temps = panel_outlet_temps si @ [po],
            pipe_temps = pipe_temps si @ [pt]\<rparr>"
    unfolding loop_body_Inr by blast
  have leni: "length (pipe_temps si) = i" "length (panel_outlet_temps si) = i"
    "length (tank_outlet_temps si) = i"
    using run_range_length [OF si] by (simp_all add: s0_def)
  have "pipe_temps s ! i = pt"
    using prefix_snoc_nth [of "pipe_temps si" pt "pipe_temps s"] pre(1) leni(1) by (simp add: eq)
  moreover have "panel_outlet_temps s ! i = po"
    using prefix_snoc_nth [of "panel_outlet_temps si" po "panel_outlet_temps s"] pre(2) leni(2)
    by (simp add: eq)
  moreover have "tank_outlet_temps s ! i = to"
    using prefix_snoc_nth [of "tank_outlet_temps si" to "tank_outlet_temps s"] pre(3) leni(3)
    by (simp add: eq)
  moreover have "Panel si' = p'" "Water si' = w'" by (simp_all add: eq)
  ultimately show "\<exists>si fi pt p' po to w' si'.
          run_range lm g [0..<i]
            \<lparr>Panel = p, Water = w, tank_outlet_temps = [], panel_outlet_temps = [],
             pipe_temps = []\<rparr> = Inr si \<and>
          float_of_int (int i) = Inr fi \<and>
          SolarPanel_UpdateTemp lm g (fmul (dt g) fi) (Panel si) = (Inr pt, p') \<and>
          Fluid_UpdateTemp lm g (Water si) pt = (Inr (po, to), w') \<and>
          pipe_temps s ! i = pt \<and> panel_outlet_temps s ! i = po \<and>
          tank_outlet_temps s ! i = to \<and>
          run_range lm g [0..<Suc i]
            \<lparr>Panel = p, Water = w, tank_outlet_temps = [], panel_outlet_temps = [],
             pipe_temps = []\<rparr> = Inr si' \<and>
          Panel si' = p' \<and> Water si' = w'"
    using si fi up uw si' unfolding s0_def by blast
next
  fix e
  assume "main_loop lm g p w = Inl e"
  then have "run_range lm g [0..<nat (steps g)]
       \<lparr>Panel = p, Water = w, tank_outlet_temps = [], panel_outlet_temps = [],
        pipe_temps = []\<rparr> = Inl e"
    by (simp add: main_loop_def)
  from run_range_first_raise [OF this]
  show "\<exists>i < nat (steps g). \<exists>si.
          run_range lm g [0..<i]
            \<lparr>Panel = p, Water = w, tank_outlet_temps = [], panel_outlet_temps = [],
             pipe_temps = []\<rparr> = Inr si \<and>
          (float_of_int (int i) = Inl e \<or>
           (\<exists>fi. float_of_int (int i) = Inr fi \<and>
              (fst (SolarPanel_UpdateTemp lm g (fmul (dt g) fi) (Panel si)) = Inl e \<or>
               (\<exists>pt. fst (SolarPanel_UpdateTemp lm g (fmul (dt g) fi) (Panel si)) = Inr pt \<and>
                  fst (Fluid_UpdateTemp lm g (Water si) pt) = Inl e))))"
    unfolding loop_body_Inl by blast
qed

lemma loop_body_example_0:
  "loop_body libm_ref (globals_default\<lparr>steps := 2\<rparr>)
     \<lparr>Panel = Panel_default, Water = Water_default, tank_outlet_temps = [],
      panel_outlet_temps = [], pipe_temps = []\<rparr> 0 =
   Inr \<lparr>Panel = Panel_default\<lparr>T := Fin (7037475860024329 / 281474976710656)\<rparr>,
        Water = Water_default\<lparr>T_panel_out := Fin (3518642551053543 / 140737488355328), T_tank_out := Fin (3518437211403097 / 140737488355328)\<rparr>,
        tank_outlet_temps = [Fin (3518437211403097 / 140737488355328)], panel_outlet_temps = [Fin (3518642551053543 / 140737488355328)],
        pipe_temps = [Fin (7037475860024329 / 281474976710656)]\<rparr>"
  by (simp add: loop_body_def float_of_int_def SolarPanel_UpdateTemp_def UpdateTemp_value_def
      Fluid_UpdateTemp_def then_do_def get_solar_rad_def Kelvin_def fsub_def libm_ref_def
      libm_cr_def globals_default_def Panel_default_def Water_default_def Let_def power_divide vals)

lemma loop_body_example_1:
  "loop_body libm_ref (globals_default\<lparr>steps := 2\<rparr>)
     \<lparr>Panel = Panel_default\<lparr>T := Fin (7037475860024329 / 281474976710656)\<rparr>,
      Water = Water_default\<lparr>T_panel_out := Fin (3518642551053543 / 140737488355328), T_tank_out := Fin (3518437211403097 / 140737488355328)\<rparr>,
      tank_outlet_temps = [Fin (3518437211403097 / 140737488355328)], panel_outlet_temps = [Fin (3518642551053543 / 140737488355328)],
      pipe_temps = [Fin (7037475860024329 / 281474976710656)]\<rparr> 1 =
   Inr \<lparr>Panel = Panel_default\<lparr>T := Fin (7038077294877415 / 281474976710656)\<rparr>,
        Water = Water_default\<lparr>T_panel_out := Fin (1759423945747491 / 70368744177664), T_tank_out := Fin (7036874432885677 / 281474976710656)\<rparr>,
        tank_outlet_temps = [Fin (3518437211403097 / 140737488355328), Fin (7036874432885677 / 281474976710656)],
        panel_outlet_temps = [Fin (3518642551053543 / 140737488355328), Fin (1759423945747491 / 70368744177664)],
        pipe_temps = [Fin (7037475860024329 / 281474976710656), Fin (7038077294877415 / 281474976710656)]\<rparr>"
  by (simp add: loop_body_def float_of_int_def SolarPanel_UpdateTemp_def UpdateTemp_value_def
      Fluid_UpdateTemp_def then_do_def get_solar_rad_def Kelvin_def fsub_def libm_ref_def
      libm_cr_def globals_default_def Panel_default_def Water_default_def Let_def power_divide vals)

lemma main_loop_example:
  "main_loop libm_ref (globals_default\<lparr>steps := 2\<rparr>) Panel_default Water_default =
   Inr \<lparr>Panel = Panel_default\<lparr>T := Fin (7038077294877415 / 281474976710656)\<rparr>,
        Water = Water_default\<lparr>T_panel_out := Fin (1759423945747491 / 70368744177664), T_tank_out := Fin (7036874432885677 / 281474976710656)\<rparr>,
        tank_outlet_temps = [Fin (3518437211403097 / 140737488355328), Fin (7036874432885677 / 281474976710656)],
        panel_outlet_temps = [Fin (3518642551053543 / 140737488355328), Fin (1759423945747491 / 70368744177664)],
        pipe_temps = [Fin (7037475860024329 / 281474976710656), Fin (7038077294877415 / 281474976710656)]\<rparr>"
proof -
  have "[0..<nat (steps (globals_default\<lparr>steps := 2\<rparr>))] = [0, 1]"
    by (simp add: upt_rec)
  then show ?thesis
    using loop_body_example_0 loop_body_example_1 by (simp add: main_loop_def)
qed

theorem main_loop_iterations_witness:
  "0 \<le> steps (globals_default\<lparr>steps := 2\<rparr>) \<and>
   (\<exists>s. main_loop libm_ref (globals_default\<lparr>steps := 2\<rparr>) Panel_default Water_default = Inr s \<and>
        pipe_temps s = [Fin (7037475860024329 / 281474976710656), Fin (7038077294877415 / 281474976710656)] \<and>
        panel_outlet_temps s = [Fin (3518642551053543 / 140737488355328), Fin (1759423945747491 / 70368744177664)] \<and>
        tank_outlet_temps s = [Fin (3518437211403097 / 140737488355328), Fin (7036874432885677 / 281474976710656)] \<and>
        int (length (pipe_temps s)) = steps (globals_default\<lparr>steps := 2\<rparr>) \<and>
        int (length (panel_outlet_temps s)) = steps (globals_default\<lparr>steps := 2\<rparr>) \<and>
        int (length (tank_outlet_temps s)) = steps (globals_default\<lparr>steps := 2\<rparr>))"
proof -
  have h: "0 \<le> steps (globals_default\<lparr>steps := 2\<rparr>)"
    by simp
  from main_loop_iterations [OF h, of libm_ref Panel_default Water_default] main_loop_example
  show ?thesis using h by auto
qed

text \<open>
  C5 as stated, for every configuration, fails: with a panel constructed with \<open>C = 0\<close>
  and \<open>steps = 1\<close> the first panel update raises, no iteration completes and there are
  no series.
\<close>

theorem main_loop_zero_capacity:
  "main_loop libm_cr (globals_default\<lparr>steps := 1\<rparr>) (Panel_default\<lparr>C := Fin 0\<rparr>) Water_default =
     Inl ZeroDivisionError"
  by (simp add: main_loop_def loop_body_def float_of_int_def SolarPanel_UpdateTemp_def
      UpdateTemp_value_def then_do_def get_solar_rad_def Kelvin_def fsub_def libm_cr_def
      globals_default_def Panel_default_def Let_def power_divide vals)

subsection \<open>The exponential-approach step\<close>

lemma libm_cr_exp:
  assumes "x \<le> 0"
  shows "\<exists>e. c_exp libm_cr x = Fin e \<and> 0 \<le> e \<and> e \<le> 1"
proof -
  have "exp x \<le> 1" using assms by simp
  from rnd_mono [OF this] have le: "fle (rnd (exp x)) (Fin 1)" by (simp add: rnd_1)
  have "0 \<le> exp x" by simp
  from rnd_nonneg [OF this] le show ?thesis
    by (auto simp: libm_cr_def)
qed

lemma math_exp_unit:
  assumes lib: "\<And>x. x \<le> 0 \<Longrightarrow> \<exists>e. c_exp lm x = Fin e \<and> 0 \<le> e \<and> e \<le> 1"
      and al: "fle (Fin 0) (fmul al l)"
  shows "\<exists>e. math_exp lm (fmul (fneg al) l) = Inr (Fin e) \<and> 0 \<le> e \<and> e \<le> 1"
proof (cases "fmul al l")
  case (Fin x)
  with al have "- x \<le> 0" by simp
  from lib [OF this] obtain e where "c_exp lm (- x) = Fin e" "0 \<le> e" "e \<le> 1" by blast
  then show ?thesis by (simp add: fmul_fneg Fin)
next
  case PInf
  then show ?thesis by (simp add: fmul_fneg)
next
  case NInf
  with al show ?thesis by simp
next
  case NaN
  with al show ?thesis by simp
qed

lemma fadd_fmul_between:
  assumes t: "rnd t = Fin t" and d: "rnd d = Fin d" and e: "0 \<le> e" "e \<le> 1"
  shows "fle (Fin t) (fadd (Fin t) (fmul (Fin d) (Fin e))) \<and>
           fle (fadd (Fin t) (fmul (Fin d) (Fin e))) (fadd (Fin t) (Fin d)) \<or>
         fle (fadd (Fin t) (Fin d)) (fadd (Fin t) (fmul (Fin d) (Fin e))) \<and>
           fle (fadd (Fin t) (fmul (Fin d) (Fin e))) (Fin t)"
proof (cases "0 \<le> d")
  case True
  have "0 \<le> d * e" "d * e \<le> d"
    using True e by (simp_all add: mult_left_le)
  then have "fle (Fin 0) (rnd (d * e))" "fle (rnd (d * e)) (Fin d)"
    using rnd_mono [of 0 "d * e"] rnd_mono [of "d * e" d] by (simp_all add: rnd_0 d)
  from fle_Fin_between [OF this] obtain x where x: "rnd (d * e) = Fin x" "0 \<le> x" "x \<le> d"
    by blast
  have "fle (rnd t) (rnd (t + x))" "fle (rnd (t + x)) (rnd (t + d))"
    using x by (simp_all add: rnd_mono)
  then show ?thesis by (simp add: x t)
next
  case False
  have "d * e \<le> 0" "d \<le> d * e"
    using False e by (simp_all add: mult_le_0_iff mult_left_le_one_le)
  then have "fle (rnd (d * e)) (Fin 0)" "fle (Fin d) (rnd (d * e))"
    using rnd_mono [of "d * e" 0] rnd_mono [of d "d * e"] by (simp_all add: rnd_0 d)
  from fle_Fin_between [OF this(2) this(1)] obtain x where
    x: "rnd (d * e) = Fin x" "d \<le> x" "x \<le> 0"
    by blast
  have "fle (rnd (t + x)) (rnd t)" "fle (rnd (t + d)) (rnd (t + x))"
    using x by (simp_all add: rnd_mono)
  then show ?thesis by (simp add: x t)
qed

lemma fadd_fsub_close:
  assumes d: "rnd (b - t) = Fin d" and h: "rnd (t + d) = Fin h"
  shows "\<bar>h - b\<bar> \<le> (\<bar>b\<bar> + \<bar>t\<bar>) / 2 ^ 51 + 2 powi (- 1073)"
proof -
  define u :: real where "u = 1 / 2 ^ 53"
  define n :: real where "n = 2 powi (- 1075)"
  have u: "0 \<le> u" "u \<le> 1" and n: "0 \<le> n" by (simp_all add: u_def n_def)
  have e1: "\<bar>d - (b - t)\<bar> \<le> \<bar>b - t\<bar> * u + n"
    using rnd_error [OF d] by (simp add: u_def n_def)
  have e2: "\<bar>h - (t + d)\<bar> \<le> \<bar>t + d\<bar> * u + n"
    using rnd_error [OF h] by (simp add: u_def n_def)
  have bt: "\<bar>b - t\<bar> \<le> \<bar>b\<bar> + \<bar>t\<bar>" by simp
  then have "\<bar>b - t\<bar> * u \<le> (\<bar>b\<bar> + \<bar>t\<bar>) * u" using u by (intro mult_right_mono)
  with e1 have e1': "\<bar>d - (b - t)\<bar> \<le> (\<bar>b\<bar> + \<bar>t\<bar>) * u + n" by simp
  have "\<bar>t + d\<bar> \<le> \<bar>b\<bar> + \<bar>d - (b - t)\<bar>" by simp
  with e1' have td: "\<bar>t + d\<bar> \<le> \<bar>b\<bar> + ((\<bar>b\<bar> + \<bar>t\<bar>) * u + n)" by simp
  have "\<bar>t + d\<bar> * u \<le> (\<bar>b\<bar> + ((\<bar>b\<bar> + \<bar>t\<bar>) * u + n)) * u"
    using td u by (intro mult_right_mono)
  also have "\<dots> = \<bar>b\<bar> * u + ((\<bar>b\<bar> + \<bar>t\<bar>) * u + n) * u" by (simp add: algebra_simps)
  also have "((\<bar>b\<bar> + \<bar>t\<bar>) * u + n) * u \<le> ((\<bar>b\<bar> + \<bar>t\<bar>) * u + n) * 1"
    using u n by (intro mult_left_mono) simp_all
  finally have e2': "\<bar>t + d\<bar> * u \<le> \<bar>b\<bar> * u + ((\<bar>b\<bar> + \<bar>t\<bar>) * u + n)" by simp
  have "\<bar>h - b\<bar> \<le> \<bar>h - (t + d)\<bar> + \<bar>d - (b - t)\<bar>" by simp
  also have "\<dots> \<le> (\<bar>b\<bar> * u + ((\<bar>b\<bar> + \<bar>t\<bar>) * u + n) + n) + ((\<bar>b\<bar> + \<bar>t\<bar>) * u + n)"
    using e2 e2' e1' by linarith
  also have "\<dots> \<le> 4 * ((\<bar>b\<bar> + \<bar>t\<bar>) * u) + 4 * n"
  proof -
    have "\<bar>b\<bar> * u \<le> (\<bar>b\<bar> + \<bar>t\<bar>) * u" using u by (intro mult_right_mono) simp_all
    moreover have "0 \<le> (\<bar>b\<bar> + \<bar>t\<bar>) * u" using u by simp
    ultimately show ?thesis using n by linarith
  qed
  also have "\<dots> = (\<bar>b\<bar> + \<bar>t\<bar>) / 2 ^ 51 + 2 powi (- 1073)"
    by (simp add: u_def n_def power_int_minus_divide)
  finally show ?thesis .
qed

lemma Fluid_UpdateTemp_panel_out:
  assumes "math_exp lm (fmul (fneg (alpha w)) (len w)) = Inr ex"
  shows "T_panel_out (snd (Fluid_UpdateTemp lm g w tp)) = fadd tp (fmul (fsub (T_tank_out w) tp) ex)"
    and "fst (Fluid_UpdateTemp lm g w tp) = Inr r \<Longrightarrow>
           fst r = fadd tp (fmul (fsub (T_tank_out w) tp) ex)"
  using assms by (auto simp: Fluid_UpdateTemp_def Let_def split: sum.splits)

text \<open>
  C10 (as amended). Let the C library's \<open>exp\<close> return a number in \<open>[0, 1]\<close> at every
  argument \<open>x \<le> 0\<close>, let the double product \<open>alpha * len\<close> be \<open>\<ge> 0\<close>, let the pipe
  temperature \<open>t\<close> and the previous tank-outlet temperature \<open>b\<close> be finite doubles whose
  double difference \<open>d = b - t\<close> is finite. Then the new panel-outlet temperature, which
  the call stores (and returns, when it returns), lies between \<open>t\<close> and the double sum
  \<open>t + d\<close>, inclusive; that sum, when finite, differs from \<open>b\<close> by at most
  \<open>(|b| + |t|) / 2^51 + 2^-1073\<close>.
\<close>

theorem Fluid_UpdateTemp_panel_out_between:
  assumes lib: "\<And>x. x \<le> 0 \<Longrightarrow> \<exists>e. c_exp lm x = Fin e \<and> 0 \<le> e \<and> e \<le> 1"
      and al: "fle (Fin 0) (fmul (alpha w) (len w))"
      and t: "rnd t = Fin t"
      and b: "T_tank_out w = Fin b"
      and d: "fsub (Fin b) (Fin t) = Fin d"
  shows "(fle (Fin t) (T_panel_out (snd (Fluid_UpdateTemp lm g w (Fin t)))) \<and>
            fle (T_panel_out (snd (Fluid_UpdateTemp lm g w (Fin t)))) (fadd (Fin t) (Fin d)) \<or>
          fle (fadd (Fin t) (Fin d)) (T_panel_out (snd (Fluid_UpdateTemp lm g w (Fin t)))) \<and>
            fle (T_panel_out (snd (Fluid_UpdateTemp lm g w (Fin t)))) (Fin t)) \<and>
         (\<forall>r. fst (Fluid_UpdateTemp lm g w (Fin t)) = Inr r \<longrightarrow>
            fst r = T_panel_out (snd (Fluid_UpdateTemp lm g w (Fin t)))) \<and>
         (\<forall>h. fadd (Fin t) (Fin d) = Fin h \<longrightarrow>
            \<bar>h - b\<bar> \<le> (\<bar>b\<bar> + \<bar>t\<bar>) / 2 ^ 51 + 2 powi (- 1073))"
proof -
  from math_exp_unit [of lm, OF lib al] obtain e where
    e: "math_exp lm (fmul (fneg (alpha w)) (len w)) = Inr (Fin e)" "0 \<le> e" "e \<le> 1"
    by blast
  have d': "rnd (b - t) = Fin d" using d by (simp add: fsub_def)
  have dd: "rnd d = Fin d" by (rule rnd_idem [OF d'])
  have po: "T_panel_out (snd (Fluid_UpdateTemp lm g w (Fin t))) =
      fadd (Fin t) (fmul (Fin d) (Fin e))"
    using Fluid_UpdateTemp_panel_out(1) [OF e(1)] b d by simp
  have 1: "fle (Fin t) (T_panel_out (snd (Fluid_UpdateTemp lm g w (Fin t)))) \<and>
            fle (T_panel_out (snd (Fluid_UpdateTemp lm g w (Fin t)))) (fadd (Fin t) (Fin d)) \<or>
          fle (fadd (Fin t) (Fin d)) (T_panel_out (snd (Fluid_UpdateTemp lm g w (Fin t)))) \<and>
            fle (T_panel_out (snd (Fluid_UpdateTemp lm g w (Fin t)))) (Fin t)"
    unfolding po by (rule fadd_fmul_between [OF t dd e(2,3)])
  have 2: "\<forall>r. fst (Fluid_UpdateTemp lm g w (Fin t)) = Inr r \<longrightarrow>
            fst r = T_panel_out (snd (Fluid_UpdateTemp lm g w (Fin t)))"
    using Fluid_UpdateTemp_panel_out [OF e(1)] by simp
  have 3: "\<forall>h. fadd (Fin t) (Fin d) = Fin h \<longrightarrow>
            \<bar>h - b\<bar> \<le> (\<bar>b\<bar> + \<bar>t\<bar>) / 2 ^ 51 + 2 powi (- 1073)"
    using fadd_fsub_close [OF d'] by simp
  show ?thesis using 1 2 3 by blast
qed

lemma Fluid_UpdateTemp_panel_out_example:
  "T_panel_out (snd (Fluid_UpdateTemp libm_ref (globals_default\<lparr>dt := Fin 2\<rparr>) Water_default
     (Fin (53 / 2)))) = Fin (7325174824928153 / 281474976710656)"
  using Fluid_UpdateTemp_example by (simp add: vals)

theorem Fluid_UpdateTemp_panel_out_between_witness:
  "fle (Fin 0) (fmul (alpha Water_default) (len Water_default)) \<and>
   rnd (53 / 2) = Fin (53 / 2) \<and>
   T_tank_out Water_default = Fin 25 \<and>
   fsub (Fin 25) (Fin (53 / 2)) = Fin (- (3 / 2)) \<and>
   fadd (Fin (53 / 2)) (Fin (- (3 / 2))) = Fin (25) \<and>
   T_panel_out (snd (Fluid_UpdateTemp libm_ref (globals_default\<lparr>dt := Fin 2\<rparr>) Water_default
     (Fin (53 / 2)))) = Fin (7325174824928153 / 281474976710656) \<and>
   fle (Fin (25)) (Fin (7325174824928153 / 281474976710656)) \<and> fle (Fin (7325174824928153 / 281474976710656)) (Fin (53 / 2))"
proof -
  have lib: "\<exists>e. c_exp libm_ref x = Fin e \<and> 0 \<le> e \<and> e \<le> 1" for x
    by (intro exI [of _ "2856790568623585 / 9007199254740992"]) (simp add: libm_ref_def)
  have al: "fle (Fin 0) (fmul (alpha Water_default) (len Water_default))"
    by (simp add: Water_default_def vals)
  have t: "rnd (53 / 2) = Fin (53 / 2)"
    by (simp add: vals)
  have b: "T_tank_out Water_default = Fin 25"
    by (simp add: Water_default_def)
  have d: "fsub (Fin 25) (Fin (53 / 2)) = Fin (- (3 / 2))"
    by (simp add: fsub_def vals)
  have h: "fadd (Fin (53 / 2)) (Fin (- (3 / 2))) = Fin (25)"
    by (simp add: vals)
  from Fluid_UpdateTemp_panel_out_between [of libm_ref Water_default "53 / 2" 25 "- (3 / 2)"
      "globals_default\<lparr>dt := Fin 2\<rparr>", OF lib al t b d]
  show ?thesis
    unfolding Fluid_UpdateTemp_panel_out_example h using al t b d h by simp
qed

text \<open>
  C10 as stated fails: with \<open>ht_coeff = 0\<close>, so that \<open>alpha * len = 0\<close> and the
  exponential is 1, a tank-outlet temperature of 25.8 and a pipe temperature of 67.1,
  the new panel-outlet temperature is 25.799999999999997, below both.
\<close>

theorem Fluid_UpdateTemp_panel_out_outside:
  "Fluid_init Panel_default (Fin 2) (Fin 25) (rnd 25.8) (Fin 4180) (Fin 1000) (rnd 0.05) (Fin 0) =
     Inr (\<lparr>rho = Fin (1000), velocity = Fin (3602879701896397 / 72057594037927936), fluid_C = Fin (4180), ht_coeff = Fin (0), T_panel_out = Fin (25), T_tank_out = Fin (7262054399134925 / 281474976710656), alpha = Fin (0), len = Fin (5), fluid_pipe_area = Fin (2263756080649101 / 4611686018427387904), tank_volume = Fin (2)\<rparr>) \<and>
   fle (Fin 0) (fmul (alpha (\<lparr>rho = Fin (1000), velocity = Fin (3602879701896397 / 72057594037927936), fluid_C = Fin (4180), ht_coeff = Fin (0), T_panel_out = Fin (25), T_tank_out = Fin (7262054399134925 / 281474976710656), alpha = Fin (0), len = Fin (5), fluid_pipe_area = Fin (2263756080649101 / 4611686018427387904), tank_volume = Fin (2)\<rparr>)) (len (\<lparr>rho = Fin (1000), velocity = Fin (3602879701896397 / 72057594037927936), fluid_C = Fin (4180), ht_coeff = Fin (0), T_panel_out = Fin (25), T_tank_out = Fin (7262054399134925 / 281474976710656), alpha = Fin (0), len = Fin (5), fluid_pipe_area = Fin (2263756080649101 / 4611686018427387904), tank_volume = Fin (2)\<rparr>))) \<and>
   Fluid_UpdateTemp libm_cr globals_default (\<lparr>rho = Fin (1000), velocity = Fin (3602879701896397 / 72057594037927936), fluid_C = Fin (4180), ht_coeff = Fin (0), T_panel_out = Fin (25), T_tank_out = Fin (7262054399134925 / 281474976710656), alpha = Fin (0), len = Fin (5), fluid_pipe_area = Fin (2263756080649101 / 4611686018427387904), tank_volume = Fin (2)\<rparr>) (rnd 67.1) =
     (Inr (Fin (1815513599783731 / 70368744177664), Fin (7262054399134925 / 281474976710656)),
      \<lparr>rho = Fin (1000), velocity = Fin (3602879701896397 / 72057594037927936), fluid_C = Fin (4180), ht_coeff = Fin (0), T_panel_out = Fin (25), T_tank_out = Fin (7262054399134925 / 281474976710656), alpha = Fin (0), len = Fin (5), fluid_pipe_area = Fin (2263756080649101 / 4611686018427387904), tank_volume = Fin (2)\<rparr>\<lparr>T_panel_out := Fin (1815513599783731 / 70368744177664), T_tank_out := Fin (7262054399134925 / 281474976710656)\<rparr>) \<and>
   fgt (rnd 25.8) (Fin (1815513599783731 / 70368744177664)) \<and> fgt (rnd 67.1) (Fin (1815513599783731 / 70368744177664))"
  by (simp add: Fluid_init_def Fluid_UpdateTemp_def then_do_def fsub_def libm_cr_def
      globals_default_def Panel_default_def Let_def power_divide vals)

end
